theory Spec2Isabelle
  imports Main "HOL-Library.Char_ord" "HOL-Library.List_Lexorder" "HOL-Library.Multiset"
begin

section \<open>Data model\<close>

text \<open>
  The shop controller keeps two representations of a distributor's shops: the documents
  of the Shop collection (models/Shop.js) and the embedded arrays \<open>retailShops\<close> and
  \<open>wholesaleShops\<close> of the Distributor document, with the cached numbers
  \<open>retailShopCount\<close> and \<open>wholesaleShopCount\<close>.

  Object ids are natural numbers. Strings are lists of 8-bit characters; of JavaScript's
  \<open>toLowerCase\<close> and \<open>trim\<close> the ASCII part is modelled and every other character
  is left as it is. The schema's \<open>enum\<close> makes the type of a stored shop one of two
  values; in a request it is still a string. Time stamps are not modelled.
\<close>

type_synonym oid = nat

datatype shop_type = Retailer | WholeSeller

record shop =
  shop_id :: oid
  name :: string
  ownerName :: string
  address :: string
  shopType :: shop_type
  distributorId :: oid
  createdBy :: "oid option"
  isActive :: bool

text \<open>An element of \<open>retailShops\<close> or \<open>wholesaleShops\<close>: it has no type of its own.\<close>

record legacy_shop =
  entry_id :: oid
  shopName :: string
  entryOwnerName :: string
  entryAddress :: string

record distributor =
  retailShops :: "legacy_shop list"
  wholesaleShops :: "legacy_shop list"
  retailShopCount :: nat
  wholesaleShopCount :: nat

text \<open>
  The store: the Shop collection in insertion order, the Distributor collection by id, the
  next fresh object id, the lines written with \<open>logger.error\<close>, and the number of update
  commands that were run on a Distributor document.
\<close>

record db =
  shops :: "shop list"
  distributors :: "oid \<rightharpoonup> distributor"
  nextId :: oid
  errorLog :: "string list"
  distributorWrites :: nat

text \<open>
  A store call is awaited and may reject. The two flags say whether the update commands of
  the legacy arrays reject, and whether the store calls of the reconciler reject.
\<close>

record faults =
  mirror_fails :: bool
  sync_fails :: bool

definition nofaults :: faults where
  "nofaults = \<lparr>mirror_fails = False, sync_fails = False\<rparr>"

section \<open>Strings\<close>

definition lowerChar :: "char \<Rightarrow> char" where
  "lowerChar c =
     (case map_of (zip ''ABCDEFGHIJKLMNOPQRSTUVWXYZ'' ''abcdefghijklmnopqrstuvwxyz'') c of
        None \<Rightarrow> c
      | Some l \<Rightarrow> l)"

definition toLowerCase :: "string \<Rightarrow> string" where
  "toLowerCase s = map lowerChar s"

definition isSpace :: "char \<Rightarrow> bool" where
  "isSpace c = (c \<in> set [CHR '' '', CHR 0x09, CHR 0x0A, CHR 0x0B, CHR 0x0C, CHR 0x0D])"

text \<open>The schema's \<open>trim: true\<close> setter of name, ownerName and address.\<close>

definition trim :: "string \<Rightarrow> string" where
  "trim s = rev (dropWhile isSpace (rev (dropWhile isSpace s)))"

text \<open>The template \<open>`${name}-${ownerName}-${address}`.toLowerCase()\<close>.\<close>

definition shopKey :: "string \<Rightarrow> string \<Rightarrow> string \<Rightarrow> string" where
  "shopKey n ow a = toLowerCase (n @ ''-'' @ ow @ ''-'' @ a)"

definition keyOfShop :: "shop \<Rightarrow> string" where
  "keyOfShop sh = shopKey (name sh) (ownerName sh) (address sh)"

definition keyOfEntry :: "legacy_shop \<Rightarrow> string" where
  "keyOfEntry e = shopKey (shopName e) (entryOwnerName e) (entryAddress e)"

section \<open>The reconciler: syncDistributorShopCounts\<close>

definition logError :: "string \<Rightarrow> db \<Rightarrow> db" where
  "logError msg s = s\<lparr>errorLog := errorLog s @ [msg]\<rparr>"

text \<open>An update command on the distributor document \<open>d\<close>; it does nothing when there is none.\<close>

definition updateDistributor :: "oid \<Rightarrow> (distributor \<Rightarrow> distributor) \<Rightarrow> db \<Rightarrow> db" where
  "updateDistributor d g s =
     (case distributors s d of
        None \<Rightarrow> s\<lparr>distributorWrites := Suc (distributorWrites s)\<rparr>
      | Some dist \<Rightarrow>
          s\<lparr>distributors := (distributors s)(d \<mapsto> g dist),
            distributorWrites := Suc (distributorWrites s)\<rparr>)"

text \<open>\<open>Shop.countDocuments({distributorId, type, isActive: true})\<close>\<close>

definition countDocuments :: "db \<Rightarrow> oid \<Rightarrow> shop_type \<Rightarrow> nat" where
  "countDocuments s d t =
     length (filter (\<lambda>sh. distributorId sh = d \<and> shopType sh = t \<and> isActive sh) (shops s))"

text \<open>\<open>Shop.find({distributorId, isActive: true})\<close>\<close>

definition shopsFromCollection :: "db \<Rightarrow> oid \<Rightarrow> shop list" where
  "shopsFromCollection s d = filter (\<lambda>sh. distributorId sh = d \<and> isActive sh) (shops s)"

text \<open>
  The \<open>forEach\<close> that fills the two key sets: a shop of type Retailer goes to the first,
  any other shop to the second.
\<close>

definition addShopKey :: "string set \<times> string set \<Rightarrow> shop \<Rightarrow> string set \<times> string set" where
  "addShopKey ks sh =
     (if shopType sh = Retailer then (insert (keyOfShop sh) (fst ks), snd ks)
      else (fst ks, insert (keyOfShop sh) (snd ks)))"

definition shopKeySets :: "shop list \<Rightarrow> string set \<times> string set" where
  "shopKeySets xs = foldl addShopKey ({}, {}) xs"

text \<open>The \<open>forEach\<close> that counts the legacy entries whose key is not in a key set.\<close>

definition uniqueLegacyCount :: "string set \<Rightarrow> legacy_shop list \<Rightarrow> nat" where
  "uniqueLegacyCount keys es = foldl (\<lambda>n e. if keyOfEntry e \<notin> keys then n + 1 else n) 0 es"

definition totalRetailCount :: "db \<Rightarrow> oid \<Rightarrow> distributor \<Rightarrow> nat" where
  "totalRetailCount s d dist =
     countDocuments s d Retailer
       + uniqueLegacyCount (fst (shopKeySets (shopsFromCollection s d))) (retailShops dist)"

definition totalWholesaleCount :: "db \<Rightarrow> oid \<Rightarrow> distributor \<Rightarrow> nat" where
  "totalWholesaleCount s d dist =
     countDocuments s d WholeSeller
       + uniqueLegacyCount (snd (shopKeySets (shopsFromCollection s d))) (wholesaleShops dist)"

text \<open>The test that guards the write of the two counts.\<close>

definition countsDiffer :: "db \<Rightarrow> oid \<Rightarrow> distributor \<Rightarrow> bool" where
  "countsDiffer s d dist =
     (totalRetailCount s d dist \<noteq> retailShopCount dist
        \<or> totalWholesaleCount s d dist \<noteq> wholesaleShopCount dist)"

text \<open>\<open>Distributor.findByIdAndUpdate(distributorId, {retailShopCount, wholesaleShopCount})\<close>\<close>

definition writeCounts :: "oid \<Rightarrow> nat \<Rightarrow> nat \<Rightarrow> db \<Rightarrow> db" where
  "writeCounts d r w s =
     updateDistributor d (\<lambda>dist. dist\<lparr>retailShopCount := r, wholesaleShopCount := w\<rparr>) s"

text \<open>
  The whole body is inside \<open>try\<close>: a rejected store call is logged and the function
  returns normally. A distributor that is not found ends the function at once.
\<close>

definition syncDistributorShopCounts :: "faults \<Rightarrow> oid \<Rightarrow> db \<Rightarrow> db" where
  "syncDistributorShopCounts f d s =
     (if sync_fails f then logError ''Error syncing distributor shop counts'' s
      else case distributors s d of
        None \<Rightarrow> s
      | Some dist \<Rightarrow>
          if countsDiffer s d dist
          then writeCounts d (totalRetailCount s d dist) (totalWholesaleCount s d dist) s
          else s)"

section \<open>Responses\<close>

text \<open>
  A handler either answers with \<open>res.status(n).json(body)\<close> or hands an exception to
  \<open>next(error)\<close>. The exceptions are Mongoose's validation error and a rejected store call.
\<close>

record legacy_view =
  view_id :: oid
  view_name :: string
  view_ownerName :: string
  view_address :: string
  view_type :: shop_type
  view_distributorId :: oid
  isLegacy :: bool
  view_isActive :: bool

datatype listed = ShopDoc shop | LegacyObj legacy_view

datatype error = ValidationError | StoreError

datatype body =
    Failure string
  | ValidationErrors
  | ShopData shop
  | Listing nat "listed list"
  | EmptyData

datatype response = Json nat body | Next error

text \<open>The two answers that the specification calls NotFound and Conflict.\<close>

definition DistributorNotFound :: response where
  "DistributorNotFound = Json 404 (Failure ''Distributor not found'')"

definition ShopNotFound :: response where
  "ShopNotFound = Json 404 (Failure ''Shop not found'')"

definition Conflict :: response where
  "Conflict = Json 400 (Failure ''A shop with this name already exists for this distributor'')"

section \<open>JavaScript helpers\<close>

text \<open>A string is truthy when it is present and not empty; \<open>x || y\<close> on strings.\<close>

definition truthy :: "string option \<Rightarrow> bool" where
  "truthy x = (case x of None \<Rightarrow> False | Some v \<Rightarrow> v \<noteq> [])"

definition orElse :: "string option \<Rightarrow> string \<Rightarrow> string" where
  "orElse x y = (case x of None \<Rightarrow> y | Some v \<Rightarrow> if v = [] then y else v)"

definition typeName :: "shop_type \<Rightarrow> string" where
  "typeName t = (case t of Retailer \<Rightarrow> ''Retailer'' | WholeSeller \<Rightarrow> ''Whole Seller'')"

text \<open>The schema's \<open>enum: ['Retailer', 'Whole Seller']\<close>.\<close>

definition castType :: "string \<Rightarrow> shop_type option" where
  "castType t =
     (if t = ''Retailer'' then Some Retailer
      else if t = ''Whole Seller'' then Some WholeSeller
      else None)"

text \<open>
  \<open>Array.prototype.sort\<close> with a comparison function: a stable sort. The argument
  \<open>le a b\<close> stands for \<open>compare(a, b) <= 0\<close>.
\<close>

fun insertBy :: "('a \<Rightarrow> 'a \<Rightarrow> bool) \<Rightarrow> 'a \<Rightarrow> 'a list \<Rightarrow> 'a list" where
  "insertBy le x [] = [x]"
| "insertBy le x (y # ys) = (if le x y then x # y # ys else y # insertBy le x ys)"

definition sortBy :: "('a \<Rightarrow> 'a \<Rightarrow> bool) \<Rightarrow> 'a list \<Rightarrow> 'a list" where
  "sortBy le xs = foldr (insertBy le) xs []"

text \<open>The first element that satisfies a test is replaced; the others stay.\<close>

fun updateFirst :: "('a \<Rightarrow> bool) \<Rightarrow> ('a \<Rightarrow> 'a) \<Rightarrow> 'a list \<Rightarrow> 'a list" where
  "updateFirst P g [] = []"
| "updateFirst P g (x # xs) = (if P x then g x # xs else x # updateFirst P g xs)"

section \<open>The legacy arrays of a distributor\<close>

datatype legacy_field = RetailShopsField | WholesaleShopsField

text \<open>\<open>type === 'Retailer' ? 'retailShops' : 'wholesaleShops'\<close>\<close>

definition fieldOfType :: "string \<Rightarrow> legacy_field" where
  "fieldOfType t = (if t = ''Retailer'' then RetailShopsField else WholesaleShopsField)"

definition getField :: "legacy_field \<Rightarrow> distributor \<Rightarrow> legacy_shop list" where
  "getField fld dist =
     (case fld of RetailShopsField \<Rightarrow> retailShops dist | WholesaleShopsField \<Rightarrow> wholesaleShops dist)"

definition setField :: "legacy_field \<Rightarrow> legacy_shop list \<Rightarrow> distributor \<Rightarrow> distributor" where
  "setField fld es dist =
     (case fld of
        RetailShopsField \<Rightarrow> dist\<lparr>retailShops := es\<rparr>
      | WholesaleShopsField \<Rightarrow> dist\<lparr>wholesaleShops := es\<rparr>)"

text \<open>
  \<open>s.shopName === name && s.ownerName === ownerName && s.address === address\<close>: the
  comparison of \<open>some\<close>, of \<open>findIndex\<close> and of the condition of \<open>$pull\<close>.
\<close>

definition sameDetails :: "string \<Rightarrow> string \<Rightarrow> string \<Rightarrow> legacy_shop \<Rightarrow> bool" where
  "sameDetails n ow a e = (shopName e = n \<and> entryOwnerName e = ow \<and> entryAddress e = a)"

text \<open>\<open>$push\<close>: the new element gets a fresh \<open>_id\<close>.\<close>

definition pushEntry :: "oid \<Rightarrow> legacy_field \<Rightarrow> string \<Rightarrow> string \<Rightarrow> string \<Rightarrow> db \<Rightarrow> db" where
  "pushEntry d fld n ow a s =
     (updateDistributor d
        (\<lambda>dist. setField fld
           (getField fld dist
              @ [\<lparr>entry_id = nextId s, shopName = n, entryOwnerName = ow, entryAddress = a\<rparr>]) dist)
        s)\<lparr>nextId := Suc (nextId s)\<rparr>"

text \<open>\<open>$pull\<close>: every element that meets the condition is removed.\<close>

definition pullEntries :: "oid \<Rightarrow> legacy_field \<Rightarrow> string \<Rightarrow> string \<Rightarrow> string \<Rightarrow> db \<Rightarrow> db" where
  "pullEntries d fld n ow a s =
     updateDistributor d
       (\<lambda>dist. setField fld (filter (\<lambda>e. \<not> sameDetails n ow a e) (getField fld dist)) dist) s"

text \<open>
  \<open>$set\<close> through the positional operator: the fields that the request supplies are
  written into the element found by the three conditions, taken to be the first element
  that meets all of them (the one \<open>findIndex\<close> has found).
\<close>

definition setSupplied :: "string option \<Rightarrow> string option \<Rightarrow> string option \<Rightarrow> legacy_shop \<Rightarrow> legacy_shop" where
  "setSupplied n ow a e =
     e\<lparr>shopName := orElse n (shopName e),
       entryOwnerName := orElse ow (entryOwnerName e),
       entryAddress := orElse a (entryAddress e)\<rparr>"

definition patchEntry ::
  "oid \<Rightarrow> legacy_field \<Rightarrow> string \<Rightarrow> string \<Rightarrow> string
     \<Rightarrow> string option \<Rightarrow> string option \<Rightarrow> string option \<Rightarrow> db \<Rightarrow> db" where
  "patchEntry d fld n ow a n' ow' a' s =
     updateDistributor d
       (\<lambda>dist. setField fld
          (updateFirst (sameDetails n ow a) (setSupplied n' ow' a') (getField fld dist)) dist) s"

section \<open>The Shop collection\<close>

definition Shop_findById :: "oid \<Rightarrow> db \<Rightarrow> shop option" where
  "Shop_findById i s = find (\<lambda>sh. shop_id sh = i) (shops s)"

text \<open>
  The schema's validators, run by \<open>Shop.create\<close> and (with \<open>runValidators\<close>) by
  \<open>Shop.findByIdAndUpdate\<close> on the values after the setters: the three strings are
  required, hence not empty, and the type is one of the \<open>enum\<close>.
\<close>

definition validateShop :: "string \<Rightarrow> string \<Rightarrow> string \<Rightarrow> string \<Rightarrow> shop_type option" where
  "validateShop n ow a t =
     (if trim n = [] \<or> trim ow = [] \<or> trim a = [] then None else castType t)"

section \<open>getShopsByDistributor\<close>

text \<open>
  The filter \<open>{distributorId, isActive: true}\<close>, with \<open>type\<close> added when the query
  parameter is truthy.
\<close>

definition matchesQuery :: "oid \<Rightarrow> string option \<Rightarrow> shop \<Rightarrow> bool" where
  "matchesQuery d ty sh =
     (distributorId sh = d \<and> isActive sh
        \<and> (case ty of None \<Rightarrow> True | Some t \<Rightarrow> if t = [] then True else typeName (shopType sh) = t))"

text \<open>The object \<open>shopCollectionMap\<close>, filled by a \<open>forEach\<close>.\<close>

definition shopCollectionMap :: "shop list \<Rightarrow> (string \<rightharpoonup> shop)" where
  "shopCollectionMap xs = foldl (\<lambda>m sh. m(keyOfShop sh \<mapsto> sh)) Map.empty xs"

text \<open>
  The \<open>map\<close> to a view object or \<open>null\<close>, followed by \<open>filter(Boolean)\<close>.
\<close>

definition legacyView :: "oid \<Rightarrow> shop_type \<Rightarrow> legacy_shop \<Rightarrow> legacy_view" where
  "legacyView d t e =
     \<lparr>view_id = entry_id e, view_name = shopName e, view_ownerName = entryOwnerName e,
      view_address = entryAddress e, view_type = t, view_distributorId = d,
      isLegacy = True, view_isActive = True\<rparr>"

definition legacyViews :: "oid \<Rightarrow> shop_type \<Rightarrow> (string \<rightharpoonup> shop) \<Rightarrow> legacy_shop list \<Rightarrow> listed list" where
  "legacyViews d t m es =
     List.map_filter
       (\<lambda>e. if m (keyOfEntry e) = None then Some (LegacyObj (legacyView d t e)) else None) es"

fun listedName :: "listed \<Rightarrow> string" where
  "listedName (ShopDoc sh) = name sh"
| "listedName (LegacyObj v) = view_name v"

text \<open>
  \<open>localeLe a b\<close> stands for \<open>a.localeCompare(b) <= 0\<close>, which depends on the locale
  of the host. The store sorts by \<open>name\<close> with the simple binary collation, the
  lexicographic order of the characters.
\<close>

definition allShops ::
  "(string \<Rightarrow> string \<Rightarrow> bool) \<Rightarrow> oid \<Rightarrow> string option \<Rightarrow> db \<Rightarrow> distributor \<Rightarrow> listed list" where
  "allShops localeLe d ty s dist =
     (let shopCollectionShops = sort_key name (filter (matchesQuery d ty) (shops s));
          m = shopCollectionMap shopCollectionShops;
          retail = (if \<not> truthy ty \<or> ty = Some ''Retailer''
                    then legacyViews d Retailer m (retailShops dist) else []);
          wholesale = (if \<not> truthy ty \<or> ty = Some ''Whole Seller''
                       then legacyViews d WholeSeller m (wholesaleShops dist) else [])
      in sortBy (\<lambda>a b. localeLe (listedName a) (listedName b))
           (map ShopDoc shopCollectionShops @ retail @ wholesale))"

definition getShopsByDistributor ::
  "(string \<Rightarrow> string \<Rightarrow> bool) \<Rightarrow> faults \<Rightarrow> oid \<Rightarrow> string option \<Rightarrow> db \<Rightarrow> response \<times> db" where
  "getShopsByDistributor localeLe f d ty s =
     (case distributors s d of
        None \<Rightarrow> (DistributorNotFound, s)
      | Some dist \<Rightarrow>
          let xs = allShops localeLe d ty s dist
          in (Json 200 (Listing (length xs) xs), syncDistributorShopCounts f d s))"

section \<open>addShop\<close>

text \<open>
  The request: whether \<open>validationResult(req)\<close> is empty, the five fields of the body
  and \<open>req.user.id\<close>.
\<close>

record add_body =
  new_errorsEmpty :: bool
  new_name :: string
  new_ownerName :: string
  new_address :: string
  new_type :: string
  new_distributorId :: oid
  new_userId :: oid

text \<open>
  \<open>Shop.findOne({name, distributorId, isActive: true})\<close>. Mongoose casts a filter with
  the setters of the schema, so the name is looked up trimmed, as it is stored.
\<close>

definition existingShop :: "string \<Rightarrow> oid \<Rightarrow> db \<Rightarrow> shop option" where
  "existingShop n d s =
     find (\<lambda>sh. name sh = trim n \<and> distributorId sh = d \<and> isActive sh) (shops s)"

definition Shop_create :: "add_body \<Rightarrow> shop_type \<Rightarrow> db \<Rightarrow> shop \<times> db" where
  "Shop_create b t s =
     (let sh = \<lparr>shop_id = nextId s, name = trim (new_name b), ownerName = trim (new_ownerName b),
                address = trim (new_address b), shopType = t,
                distributorId = new_distributorId b, createdBy = Some (new_userId b),
                isActive = True\<rparr>
      in (sh, s\<lparr>shops := shops s @ [sh], nextId := Suc (nextId s)\<rparr>))"

text \<open>
  The test \<open>shopArray.some(...)\<close> on the distributor document read at the start of
  the handler.
\<close>

definition shopExists :: "add_body \<Rightarrow> distributor \<Rightarrow> bool" where
  "shopExists b distributor =
     (let updateField = fieldOfType (new_type b);
          shopArray = getField updateField distributor
      in list_ex (sameDetails (new_name b) (new_ownerName b) (new_address b)) shopArray)"

text \<open>The part of the handler after \<open>Shop.create\<close> has returned the new document.\<close>

definition addShopLegacy :: "faults \<Rightarrow> add_body \<Rightarrow> distributor \<Rightarrow> shop \<Rightarrow> db \<Rightarrow> response \<times> db" where
  "addShopLegacy f b distributor sh s =
     (if \<not> shopExists b distributor then
        (if mirror_fails f then (Next StoreError, logError ''Error in addShop controller'' s)
         else (Json 201 (ShopData sh),
               syncDistributorShopCounts f (new_distributorId b)
                 (pushEntry (new_distributorId b) (fieldOfType (new_type b))
                    (new_name b) (new_ownerName b) (new_address b) s)))
      else (Json 201 (ShopData sh), syncDistributorShopCounts f (new_distributorId b) s))"

definition addShop :: "faults \<Rightarrow> add_body \<Rightarrow> db \<Rightarrow> response \<times> db" where
  "addShop f b s =
     (if \<not> new_errorsEmpty b then (Json 400 ValidationErrors, s)
      else case distributors s (new_distributorId b) of
        None \<Rightarrow> (DistributorNotFound, s)
      | Some distributor \<Rightarrow>
          (case existingShop (new_name b) (new_distributorId b) s of
             Some _ \<Rightarrow> (Conflict, s)
           | None \<Rightarrow>
               (case validateShop (new_name b) (new_ownerName b) (new_address b) (new_type b) of
                  None \<Rightarrow> (Next ValidationError, logError ''Error in addShop controller'' s)
                | Some t \<Rightarrow>
                    (case Shop_create b t s of (sh, s1) \<Rightarrow> addShopLegacy f b distributor sh s1))))"

section \<open>updateShop\<close>

text \<open>The request: a field of the body that is absent is \<open>None\<close>.\<close>

record update_body =
  upd_errorsEmpty :: bool
  upd_name :: "string option"
  upd_ownerName :: "string option"
  upd_address :: "string option"
  upd_type :: "string option"
  upd_distributorId :: "oid option"

text \<open>\<open>distributorId || originalDistributorId\<close>\<close>

definition newDistributorIdOf :: "update_body \<Rightarrow> oid \<Rightarrow> oid" where
  "newDistributorIdOf b originalDistributorId =
     (case upd_distributorId b of None \<Rightarrow> originalDistributorId | Some d \<Rightarrow> d)"

text \<open>The update document of \<open>Shop.findByIdAndUpdate\<close>, applied with the setters.\<close>

definition shopUpdate :: "update_body \<Rightarrow> shop_type \<Rightarrow> oid \<Rightarrow> shop \<Rightarrow> shop" where
  "shopUpdate b newType newDistributorId sh =
     sh\<lparr>name := trim (orElse (upd_name b) (name sh)),
        ownerName := trim (orElse (upd_ownerName b) (ownerName sh)),
        address := trim (orElse (upd_address b) (address sh)),
        shopType := newType,
        distributorId := newDistributorId\<rparr>"

text \<open>
  \<open>syncDistributorShopCounts(originalDistributorId)\<close> and, when the distributor has
  changed, \<open>syncDistributorShopCounts(newDistributorId)\<close>.
\<close>

definition syncBoth :: "faults \<Rightarrow> oid \<Rightarrow> oid \<Rightarrow> db \<Rightarrow> db" where
  "syncBoth f originalDistributorId newDistributorId s =
     (let s' = syncDistributorShopCounts f originalDistributorId s
      in if newDistributorId \<noteq> originalDistributorId
         then syncDistributorShopCounts f newDistributorId s' else s')"

text \<open>
  The part of the handler after \<open>shop\<close> has been assigned the updated document: from
  here on \<open>shop.name\<close>, \<open>shop.ownerName\<close> and \<open>shop.address\<close> are the new values.
\<close>

definition updateShopLegacy ::
  "faults \<Rightarrow> update_body \<Rightarrow> shop \<Rightarrow> shop_type \<Rightarrow> oid \<Rightarrow> shop_type \<Rightarrow> oid \<Rightarrow> db \<Rightarrow> response \<times> db" where
  "updateShopLegacy f b sh originalType originalDistributorId newType newDistributorId s =
     (case distributors s originalDistributorId of
        None \<Rightarrow> (Json 200 (ShopData sh), s)
      | Some originalDistributor \<Rightarrow>
          let originalUpdateField = fieldOfType (typeName originalType) in
          if newDistributorId \<noteq> originalDistributorId \<or> newType \<noteq> originalType then
            (if mirror_fails f then (Next StoreError, logError ''Error in updateShop controller'' s)
             else
               let s1 = pullEntries originalDistributorId originalUpdateField
                          (name sh) (ownerName sh) (address sh) s;
                   newUpdateField = fieldOfType (typeName newType);
                   s2 = pushEntry
                          (if newDistributorId \<noteq> originalDistributorId
                           then newDistributorId else originalDistributorId)
                          newUpdateField
                          (orElse (upd_name b) (name sh))
                          (orElse (upd_ownerName b) (ownerName sh))
                          (orElse (upd_address b) (address sh)) s1
               in (Json 200 (ShopData sh), syncBoth f originalDistributorId newDistributorId s2))
          else if truthy (upd_name b) \<or> truthy (upd_ownerName b) \<or> truthy (upd_address b) then
            (if list_ex (sameDetails (name sh) (ownerName sh) (address sh))
                  (getField originalUpdateField originalDistributor)
             then
               (if mirror_fails f
                then (Next StoreError, logError ''Error in updateShop controller'' s)
                else (Json 200 (ShopData sh),
                      syncBoth f originalDistributorId newDistributorId
                        (patchEntry originalDistributorId originalUpdateField
                           (name sh) (ownerName sh) (address sh)
                           (upd_name b) (upd_ownerName b) (upd_address b) s)))
             else (Json 200 (ShopData sh), syncBoth f originalDistributorId newDistributorId s))
          else (Json 200 (ShopData sh), syncBoth f originalDistributorId newDistributorId s))"

definition updateShop :: "faults \<Rightarrow> oid \<Rightarrow> update_body \<Rightarrow> db \<Rightarrow> response \<times> db" where
  "updateShop f i b s =
     (if \<not> upd_errorsEmpty b then (Json 400 ValidationErrors, s)
      else case Shop_findById i s of
        None \<Rightarrow> (ShopNotFound, s)
      | Some shop0 \<Rightarrow>
          let originalType = shopType shop0;
              originalDistributorId = distributorId shop0;
              newType = orElse (upd_type b) (typeName originalType);
              newDistributorId = newDistributorIdOf b originalDistributorId
          in if newDistributorId \<noteq> originalDistributorId \<and> distributors s newDistributorId = None
             then (DistributorNotFound, s)
             else
               (case validateShop (orElse (upd_name b) (name shop0))
                       (orElse (upd_ownerName b) (ownerName shop0))
                       (orElse (upd_address b) (address shop0)) newType of
                  None \<Rightarrow> (Next ValidationError, logError ''Error in updateShop controller'' s)
                | Some t \<Rightarrow>
                    updateShopLegacy f b (shopUpdate b t newDistributorId shop0)
                      originalType originalDistributorId t newDistributorId
                      (s\<lparr>shops := updateFirst (\<lambda>sh. shop_id sh = i)
                                    (shopUpdate b t newDistributorId) (shops s)\<rparr>)))"

section \<open>deleteShop\<close>

text \<open>
  \<open>shop.distributorId\<close> is a required object id, so the test \<open>if (shop.distributorId)\<close>
  succeeds. The handler works with the document it has read before the update.
\<close>

definition deleteShopLegacy :: "faults \<Rightarrow> shop \<Rightarrow> db \<Rightarrow> response \<times> db" where
  "deleteShopLegacy f sh s =
     (case distributors s (distributorId sh) of
        None \<Rightarrow> (Json 200 EmptyData, s)
      | Some distributor \<Rightarrow>
          let updateField = fieldOfType (typeName (shopType sh)) in
          if list_ex (sameDetails (name sh) (ownerName sh) (address sh))
               (getField updateField distributor)
          then
            (if mirror_fails f then (Next StoreError, logError ''Error in deleteShop controller'' s)
             else (Json 200 EmptyData,
                   syncDistributorShopCounts f (distributorId sh)
                     (pullEntries (distributorId sh) updateField
                        (name sh) (ownerName sh) (address sh) s)))
          else (Json 200 EmptyData, syncDistributorShopCounts f (distributorId sh) s))"

definition deleteShop :: "faults \<Rightarrow> oid \<Rightarrow> db \<Rightarrow> response \<times> db" where
  "deleteShop f i s =
     (case Shop_findById i s of
        None \<Rightarrow> (ShopNotFound, s)
      | Some sh \<Rightarrow>
          deleteShopLegacy f sh
            (s\<lparr>shops := updateFirst (\<lambda>x. shop_id x = i) (\<lambda>x. x\<lparr>isActive := False\<rparr>) (shops s)\<rparr>))"

section \<open>The counts in the words of the specification\<close>

text \<open>
  The active Shop records of one type of a distributor, the legacy entries whose identity
  key is the key of none of a list of shops, and the distributor document with the two
  counts set to the computed totals.
\<close>

definition activeOfType :: "db \<Rightarrow> oid \<Rightarrow> shop_type \<Rightarrow> shop list" where
  "activeOfType s d t =
     filter (\<lambda>sh. distributorId sh = d \<and> shopType sh = t \<and> isActive sh) (shops s)"

definition unmatchedLegacy :: "shop list \<Rightarrow> legacy_shop list \<Rightarrow> legacy_shop list" where
  "unmatchedLegacy xs es = filter (\<lambda>e. keyOfEntry e \<notin> set (map keyOfShop xs)) es"

definition reconciled :: "db \<Rightarrow> oid \<Rightarrow> distributor \<Rightarrow> distributor" where
  "reconciled s d dist =
     dist\<lparr>retailShopCount := totalRetailCount s d dist,
          wholesaleShopCount := totalWholesaleCount s d dist\<rparr>"

section \<open>Example stores\<close>

text \<open>
  One legacy retail entry and one active Retailer shop with the same name, owner and
  address.
\<close>

definition dedupDist :: distributor where
  "dedupDist = \<lparr>retailShops = [\<lparr>entry_id = 10, shopName = ''A'', entryOwnerName = ''B'', entryAddress = ''C''\<rparr>],
      wholesaleShops = [], retailShopCount = 0, wholesaleShopCount = 0\<rparr>"

definition dedupDb :: db where
  "dedupDb = \<lparr>shops = [\<lparr>shop_id = 20, name = ''A'', ownerName = ''B'', address = ''C'',
       shopType = Retailer, distributorId = 1, createdBy = None, isActive = True\<rparr>],
     distributors = [1 \<mapsto> dedupDist], nextId = 30, errorLog = [], distributorWrites = 0\<rparr>"

text \<open>
  A legacy retail entry in lower case, and a request for a shop with the same details in
  upper case.
\<close>

definition caseDist :: distributor where
  "caseDist = \<lparr>retailShops = [\<lparr>entry_id = 10, shopName = ''a'', entryOwnerName = ''b'', entryAddress = ''c''\<rparr>],
      wholesaleShops = [], retailShopCount = 1, wholesaleShopCount = 0\<rparr>"

definition caseDb :: db where
  "caseDb = \<lparr>shops = [], distributors = [1 \<mapsto> caseDist], nextId = 30, errorLog = [],
     distributorWrites = 0\<rparr>"

definition caseBody :: add_body where
  "caseBody = \<lparr>new_errorsEmpty = True, new_name = ''A'', new_ownerName = ''B'', new_address = ''C'',
     new_type = ''Retailer'', new_distributorId = 1, new_userId = 7\<rparr>"

text \<open>A second request with the same name for the same distributor; all else differs.\<close>

definition sameNameBody :: add_body where
  "sameNameBody = \<lparr>new_errorsEmpty = True, new_name = ''A'', new_ownerName = ''Z'',
     new_address = ''Y'', new_type = ''Whole Seller'', new_distributorId = 1, new_userId = 8\<rparr>"

text \<open>The shop that the upper-case request creates in that store.\<close>

definition caseShop :: shop where
  "caseShop = \<lparr>shop_id = 30, name = ''A'', ownerName = ''B'', address = ''C'',
       shopType = Retailer, distributorId = 1, createdBy = Some 7, isActive = True\<rparr>"

text \<open>
  Distributor 1 has one active Retailer shop and its legacy entry; distributor 2 has
  nothing. The request moves the shop to distributor 2 and renames it.
\<close>

definition transferDb :: db where
  "transferDb =
     \<lparr>shops = [\<lparr>shop_id = 20, name = ''A'', ownerName = ''B'', address = ''C'',
                shopType = Retailer, distributorId = 1, createdBy = None, isActive = True\<rparr>],
      distributors =
        [1 \<mapsto> \<lparr>retailShops = [\<lparr>entry_id = 10, shopName = ''A'', entryOwnerName = ''B'',
                                   entryAddress = ''C''\<rparr>],
                 wholesaleShops = [], retailShopCount = 1, wholesaleShopCount = 0\<rparr>,
         2 \<mapsto> \<lparr>retailShops = [], wholesaleShops = [], retailShopCount = 0,
                 wholesaleShopCount = 0\<rparr>],
      nextId = 30, errorLog = [], distributorWrites = 0\<rparr>"

definition transferBody :: update_body where
  "transferBody = \<lparr>upd_errorsEmpty = True, upd_name = Some ''A2'', upd_ownerName = None,
     upd_address = None, upd_type = None, upd_distributorId = Some 2\<rparr>"

text \<open>
  A comparison for the final sort of a listing: the order of the characters, as in the
  "C" locale.
\<close>

definition binaryLe :: "string \<Rightarrow> string \<Rightarrow> bool" where
  "binaryLe a b = (a \<le> b)"

text \<open>
  One active Retailer shop and one legacy wholesale entry for another shop.
\<close>

definition filterDist :: distributor where
  "filterDist =
     \<lparr>retailShops = [],
      wholesaleShops = [\<lparr>entry_id = 11, shopName = ''W'', entryOwnerName = ''O'',
                          entryAddress = ''A''\<rparr>],
      retailShopCount = 1, wholesaleShopCount = 1\<rparr>"

definition filterShop :: shop where
  "filterShop = \<lparr>shop_id = 21, name = ''R'', ownerName = ''P'', address = ''Q'',
     shopType = Retailer, distributorId = 1, createdBy = None, isActive = True\<rparr>"

definition filterDb :: db where
  "filterDb = \<lparr>shops = [filterShop], distributors = [1 \<mapsto> filterDist], nextId = 30,
     errorLog = [], distributorWrites = 0\<rparr>"

text \<open>
  One active Retailer shop, and a legacy wholesale entry with the same details.
\<close>

definition crossTypeDist :: distributor where
  "crossTypeDist =
     \<lparr>retailShops = [],
      wholesaleShops = [\<lparr>entry_id = 12, shopName = ''A'', entryOwnerName = ''B'',
                          entryAddress = ''C''\<rparr>],
      retailShopCount = 0, wholesaleShopCount = 0\<rparr>"

definition crossTypeDb :: db where
  "crossTypeDb = \<lparr>shops = [caseShop], distributors = [1 \<mapsto> crossTypeDist], nextId = 40,
     errorLog = [], distributorWrites = 0\<rparr>"

section \<open>Auxiliary definitions\<close>

text \<open>Every record with the id \<open>i\<close> made inactive; the other records as they are.\<close>

definition deactivated :: "oid \<Rightarrow> shop list \<Rightarrow> shop list" where
  "deactivated i xs = map (\<lambda>x. if shop_id x = i then x\<lparr>isActive := False\<rparr> else x) xs"

section \<open>The invariant of the counts\<close>

text \<open>
  The counts of a distributor are reconciled when the distributor exists and each stored
  count is the number of active Shop records of the type plus the number of legacy
  entries of the matching array whose identity key is the key of none of these records.
\<close>

definition countsReconciled :: "db \<Rightarrow> oid \<Rightarrow> bool" where
  "countsReconciled s d =
     (case distributors s d of
        None \<Rightarrow> False
      | Some dist \<Rightarrow>
          retailShopCount dist =
            length (activeOfType s d Retailer)
              + length (unmatchedLegacy (activeOfType s d Retailer) (retailShops dist))
          \<and> wholesaleShopCount dist =
            length (activeOfType s d WholeSeller)
              + length (unmatchedLegacy (activeOfType s d WholeSeller) (wholesaleShops dist)))"

text \<open>
  In the words of the specification: the number of distinct identity keys among the
  active Shop records of a type and the entries of a legacy array, merged.
\<close>

definition mergedDistinctCount :: "db \<Rightarrow> oid \<Rightarrow> shop_type \<Rightarrow> legacy_shop list \<Rightarrow> nat" where
  "mergedDistinctCount s d t es =
     length (remdups (map keyOfShop (activeOfType s d t) @ map keyOfEntry es))"

text \<open>
  A distributor with no shops at all, a request in lower case for the shop of
  \<open>caseBody\<close>, and the store after both requests.
\<close>

definition emptyDb :: db where
  "emptyDb =
     \<lparr>shops = [],
      distributors = [1 \<mapsto> \<lparr>retailShops = [], wholesaleShops = [], retailShopCount = 0,
                               wholesaleShopCount = 0\<rparr>],
      nextId = 30, errorLog = [], distributorWrites = 0\<rparr>"

definition lowerBody :: add_body where
  "lowerBody = \<lparr>new_errorsEmpty = True, new_name = ''a'', new_ownerName = ''b'', new_address = ''c'',
     new_type = ''Retailer'', new_distributorId = 1, new_userId = 7\<rparr>"

definition twoAdds :: db where
  "twoAdds = snd (addShop nofaults lowerBody (snd (addShop nofaults caseBody emptyDb)))"

section \<open>Further example stores\<close>

text \<open>
  The active Retailer shop of \<open>dedupDb\<close> beside a legacy retail entry for another shop.
\<close>

definition additiveDist :: distributor where
  "additiveDist =
     \<lparr>retailShops = [\<lparr>entry_id = 10, shopName = ''X'', entryOwnerName = ''Y'', entryAddress = ''Z''\<rparr>],
      wholesaleShops = [], retailShopCount = 0, wholesaleShopCount = 0\<rparr>"

definition additiveDb :: db where
  "additiveDb = dedupDb\<lparr>distributors := [1 \<mapsto> additiveDist]\<rparr>"

text \<open>
  An active Whole Seller shop and a legacy wholesale entry with the same details in lower
  case.
\<close>

definition nanduDist :: distributor where
  "nanduDist =
     \<lparr>retailShops = [],
      wholesaleShops = [\<lparr>entry_id = 10, shopName = ''nandu shop'', entryOwnerName = ''ram'',
                          entryAddress = ''delhi''\<rparr>],
      retailShopCount = 0, wholesaleShopCount = 0\<rparr>"

definition nanduDb :: db where
  "nanduDb =
     \<lparr>shops = [\<lparr>shop_id = 20, name = ''Nandu Shop'', ownerName = ''Ram'', address = ''Delhi'',
                shopType = WholeSeller, distributorId = 1, createdBy = None, isActive = True\<rparr>],
      distributors = [1 \<mapsto> nanduDist], nextId = 30, errorLog = [], distributorWrites = 0\<rparr>"

text \<open>A request for a Whole Seller shop.\<close>

definition wholesaleBody :: add_body where
  "wholesaleBody = \<lparr>new_errorsEmpty = True, new_name = ''W'', new_ownerName = ''O'',
     new_address = ''A'', new_type = ''Whole Seller'', new_distributorId = 1, new_userId = 7\<rparr>"

text \<open>
  The store of \<open>caseDb\<close> after the request \<open>caseBody\<close>: the shop A/B/C, its legacy
  entry, and the older legacy entry a/b/c with the same identity key.
\<close>

definition twinDb :: db where
  "twinDb = snd (addShop nofaults caseBody caseDb)"

text \<open>
  An active Whole Seller shop, with an entry of its name, owner and address in each of
  the two legacy arrays.
\<close>

definition wholesaleDb :: db where
  "wholesaleDb =
     \<lparr>shops = [\<lparr>shop_id = 21, name = ''W'', ownerName = ''O'', address = ''A'',
                shopType = WholeSeller, distributorId = 1, createdBy = None, isActive = True\<rparr>],
      distributors =
        [1 \<mapsto> \<lparr>retailShops = [\<lparr>entry_id = 12, shopName = ''W'', entryOwnerName = ''O'',
                                   entryAddress = ''A''\<rparr>],
                 wholesaleShops = [\<lparr>entry_id = 11, shopName = ''W'', entryOwnerName = ''O'',
                                      entryAddress = ''A''\<rparr>],
                 retailShopCount = 1, wholesaleShopCount = 1\<rparr>],
      nextId = 30, errorLog = [], distributorWrites = 0\<rparr>"



text \<open>
  A shop whose distributor document is missing, and distributor 2 with nothing.
\<close>

definition orphanDb :: db where
  "orphanDb =
     \<lparr>shops = [\<lparr>shop_id = 20, name = ''A'', ownerName = ''B'', address = ''C'',
                shopType = Retailer, distributorId = 3, createdBy = None, isActive = True\<rparr>],
      distributors =
        [2 \<mapsto> \<lparr>retailShops = [], wholesaleShops = [], retailShopCount = 0,
                 wholesaleShopCount = 0\<rparr>],
      nextId = 30, errorLog = [], distributorWrites = 0\<rparr>"

section \<open>Properties of the reconciler\<close>

lemma foldl_addShopKey:
  "foldl addShopKey (A, B) xs =
     (A \<union> keyOfShop ` {sh \<in> set xs. shopType sh = Retailer},
      B \<union> keyOfShop ` {sh \<in> set xs. shopType sh \<noteq> Retailer})"
  by (induction xs arbitrary: A B) (auto simp: addShopKey_def)

lemma shopKeySets_eq:
  "shopKeySets xs =
     (keyOfShop ` {sh \<in> set xs. shopType sh = Retailer},
      keyOfShop ` {sh \<in> set xs. shopType sh \<noteq> Retailer})"
  by (simp add: shopKeySets_def foldl_addShopKey)

lemma foldl_legacy_count:
  "foldl (\<lambda>n e. if keyOfEntry e \<notin> keys then n + 1 else n) k es
     = k + length (filter (\<lambda>e. keyOfEntry e \<notin> keys) es)"
  by (induction es arbitrary: k) auto

lemma uniqueLegacyCount_eq:
  "uniqueLegacyCount keys es = length (filter (\<lambda>e. keyOfEntry e \<notin> keys) es)"
  by (simp add: uniqueLegacyCount_def foldl_legacy_count)

lemma not_Retailer: "(t \<noteq> Retailer) = (t = WholeSeller)"
  by (cases t) auto

lemma retail_keys:
  "fst (shopKeySets (shopsFromCollection s d)) = set (map keyOfShop (activeOfType s d Retailer))"
  by (auto simp: shopKeySets_eq shopsFromCollection_def activeOfType_def)

lemma wholesale_keys:
  "snd (shopKeySets (shopsFromCollection s d)) = set (map keyOfShop (activeOfType s d WholeSeller))"
  by (auto simp: shopKeySets_eq shopsFromCollection_def activeOfType_def not_Retailer)

lemma totalRetailCount_eq:
  "totalRetailCount s d dist =
     length (activeOfType s d Retailer)
       + length (unmatchedLegacy (activeOfType s d Retailer) (retailShops dist))"
  by (simp add: totalRetailCount_def countDocuments_def uniqueLegacyCount_eq retail_keys
      unmatchedLegacy_def activeOfType_def)

lemma totalWholesaleCount_eq:
  "totalWholesaleCount s d dist =
     length (activeOfType s d WholeSeller)
       + length (unmatchedLegacy (activeOfType s d WholeSeller) (wholesaleShops dist))"
  by (simp add: totalWholesaleCount_def countDocuments_def uniqueLegacyCount_eq wholesale_keys
      unmatchedLegacy_def activeOfType_def)


lemma sync_unchanged:
  "distributors s d = Some dist \<Longrightarrow> \<not> countsDiffer s d dist
     \<Longrightarrow> syncDistributorShopCounts nofaults d s = s"
  by (simp add: syncDistributorShopCounts_def nofaults_def)

lemma sync_missing:
  "distributors s d = None \<Longrightarrow> syncDistributorShopCounts nofaults d s = s"
  by (simp add: syncDistributorShopCounts_def nofaults_def)

lemma shops_sync [simp]: "shops (syncDistributorShopCounts f d s) = shops s"
  by (simp add: syncDistributorShopCounts_def logError_def writeCounts_def updateDistributor_def
      split: option.splits)

lemma sync_reconciles:
  assumes "distributors s d = Some dist"
  shows "distributors (syncDistributorShopCounts nofaults d s) d = Some (reconciled s d dist)"
  using assms
  by (simp add: syncDistributorShopCounts_def nofaults_def countsDiffer_def writeCounts_def
      updateDistributor_def reconciled_def)

lemma reconciled_totals:
  assumes "shops s' = shops s"
  shows "totalRetailCount s' d (reconciled s d dist) = totalRetailCount s d dist"
    and "totalWholesaleCount s' d (reconciled s d dist) = totalWholesaleCount s d dist"
  using assms
  by (simp_all add: reconciled_def totalRetailCount_def totalWholesaleCount_def
      countDocuments_def shopsFromCollection_def)

lemma reconciled_same:
  "shops s' = shops s \<Longrightarrow> \<not> countsDiffer s' d (reconciled s d dist)"
  by (simp add: countsDiffer_def reconciled_totals) (simp add: reconciled_def)

lemma lowerChar_other: "c \<notin> set ''ABCDEFGHIJKLMNOPQRSTUVWXYZ'' \<Longrightarrow> lowerChar c = c"
proof -
  assume "c \<notin> set ''ABCDEFGHIJKLMNOPQRSTUVWXYZ''"
  then have "map_of (zip ''ABCDEFGHIJKLMNOPQRSTUVWXYZ'' ''abcdefghijklmnopqrstuvwxyz'') c = None"
    by (simp only: map_of_eq_None_iff) simp
  then show ?thesis by (simp only: lowerChar_def option.case)
qed

lemma toLowerCase_upper:
  "toLowerCase ''ABCDEFGHIJKLMNOPQRSTUVWXYZ'' = ''abcdefghijklmnopqrstuvwxyz''"
  by (simp add: toLowerCase_def lowerChar_def)

lemma shopKey_parts:
  "shopKey n ow a = toLowerCase n @ ''-'' @ toLowerCase ow @ ''-'' @ toLowerCase a"
  by (simp add: shopKey_def toLowerCase_def lowerChar_def)

text \<open>
  Claim C2. For an existing distributor the reconciler computes, for Retailer, the number
  of active Shop records of type Retailer of the distributor plus the number of entries
  of \<open>retailShops\<close> whose identity key is the key of none of these records, and for
  Whole Seller the same with \<open>wholesaleShops\<close>; it stores the two totals when one of
  them differs from the stored count, and otherwise leaves the store as it is. The
  identity key of a shop and of a legacy entry is the lower-case form of the name, a
  hyphen, the lower-case form of the owner name, a hyphen and the lower-case form of the
  address; the lower-case form works character by character, maps the letters A to Z to
  a to z and leaves every other ASCII character as it is. The first witness is the
  example of the specification: one legacy entry and one Retailer shop with the same
  details give the count 1.
\<close>

theorem syncCounts_computes_totals:
  assumes "distributors s d = Some dist"
  shows "totalRetailCount s d dist =
           length (activeOfType s d Retailer)
             + length (unmatchedLegacy (activeOfType s d Retailer) (retailShops dist))
       \<and> totalWholesaleCount s d dist =
           length (activeOfType s d WholeSeller)
             + length (unmatchedLegacy (activeOfType s d WholeSeller) (wholesaleShops dist))
       \<and> syncDistributorShopCounts nofaults d s =
           (if totalRetailCount s d dist = retailShopCount dist
                 \<and> totalWholesaleCount s d dist = wholesaleShopCount dist
            then s
            else s\<lparr>distributors := (distributors s)(d \<mapsto>
                     dist\<lparr>retailShopCount := totalRetailCount s d dist,
                          wholesaleShopCount := totalWholesaleCount s d dist\<rparr>),
                   distributorWrites := Suc (distributorWrites s)\<rparr>)
       \<and> (\<forall>sh. keyOfShop sh =
              toLowerCase (name sh) @ ''-'' @ toLowerCase (ownerName sh) @ ''-''
                @ toLowerCase (address sh))
       \<and> (\<forall>e. keyOfEntry e =
              toLowerCase (shopName e) @ ''-'' @ toLowerCase (entryOwnerName e) @ ''-''
                @ toLowerCase (entryAddress e))
       \<and> toLowerCase ''ABCDEFGHIJKLMNOPQRSTUVWXYZ'' = ''abcdefghijklmnopqrstuvwxyz''
       \<and> (\<forall>x y. toLowerCase (x @ y) = toLowerCase x @ toLowerCase y)
       \<and> (\<forall>c. c \<notin> set ''ABCDEFGHIJKLMNOPQRSTUVWXYZ'' \<longrightarrow> of_char c < (128 :: nat)
              \<longrightarrow> toLowerCase [c] = [c])"
proof -
  have a: "totalRetailCount s d dist =
           length (activeOfType s d Retailer)
             + length (unmatchedLegacy (activeOfType s d Retailer) (retailShops dist))
       \<and> totalWholesaleCount s d dist =
           length (activeOfType s d WholeSeller)
             + length (unmatchedLegacy (activeOfType s d WholeSeller) (wholesaleShops dist))
       \<and> syncDistributorShopCounts nofaults d s =
           (if totalRetailCount s d dist = retailShopCount dist
                 \<and> totalWholesaleCount s d dist = wholesaleShopCount dist
            then s
            else s\<lparr>distributors := (distributors s)(d \<mapsto>
                     dist\<lparr>retailShopCount := totalRetailCount s d dist,
                          wholesaleShopCount := totalWholesaleCount s d dist\<rparr>),
                   distributorWrites := Suc (distributorWrites s)\<rparr>)"
    using assms
    by (simp add: totalRetailCount_eq totalWholesaleCount_eq syncDistributorShopCounts_def
        nofaults_def countsDiffer_def writeCounts_def updateDistributor_def)
  have b: "\<forall>sh. keyOfShop sh =
              toLowerCase (name sh) @ ''-'' @ toLowerCase (ownerName sh) @ ''-''
                @ toLowerCase (address sh)"
    by (simp add: keyOfShop_def shopKey_parts)
  have c: "\<forall>e. keyOfEntry e =
              toLowerCase (shopName e) @ ''-'' @ toLowerCase (entryOwnerName e) @ ''-''
                @ toLowerCase (entryAddress e)"
    by (simp add: keyOfEntry_def shopKey_parts)
  have e: "\<forall>x y. toLowerCase (x @ y) = toLowerCase x @ toLowerCase y"
    by (simp add: toLowerCase_def)
  have g: "\<forall>c. c \<notin> set ''ABCDEFGHIJKLMNOPQRSTUVWXYZ'' \<longrightarrow> of_char c < (128 :: nat)
              \<longrightarrow> toLowerCase [c] = [c]"
    by (simp add: toLowerCase_def lowerChar_other del: set_simps)
  show ?thesis
    by (rule conjI [OF a [THEN conjunct1] conjI [OF a [THEN conjunct2, THEN conjunct1]
          conjI [OF a [THEN conjunct2, THEN conjunct2]
            conjI [OF b conjI [OF c conjI [OF toLowerCase_upper conjI [OF e g]]]]]]])
qed

theorem syncCounts_computes_totals_witness:
  "distributors dedupDb 1 = Some dedupDist
   \<and> map_option retailShopCount (distributors (syncDistributorShopCounts nofaults 1 dedupDb) 1) = Some 1
   \<and> distributors additiveDb 1 = Some additiveDist
   \<and> map_option retailShopCount (distributors (syncDistributorShopCounts nofaults 1 additiveDb) 1)
       = Some 2
   \<and> distributors nanduDb 1 = Some nanduDist
   \<and> map_option wholesaleShopCount (distributors (syncDistributorShopCounts nofaults 1 nanduDb) 1)
       = Some 1
   \<and> keyOfShop \<lparr>shop_id = 20, name = ''Nandu Shop'', ownerName = ''Ram'', address = ''Delhi'',
         shopType = WholeSeller, distributorId = 1, createdBy = None, isActive = True\<rparr>
       = ''nandu shop-ram-delhi''
   \<and> keyOfEntry \<lparr>entry_id = 10, shopName = ''nandu shop'', entryOwnerName = ''ram'',
         entryAddress = ''delhi''\<rparr>
       = ''nandu shop-ram-delhi''
   \<and> toLowerCase ''-'' = ''-''"
proof -
  have h1: "distributors dedupDb 1 = Some dedupDist" by (simp add: dedupDb_def)
  have h2: "distributors additiveDb 1 = Some additiveDist" by (simp add: additiveDb_def)
  have h3: "distributors nanduDb 1 = Some nanduDist" by (simp add: nanduDb_def)
  note t1 = syncCounts_computes_totals [OF h1]
  note t2 = syncCounts_computes_totals [OF h2]
  note t3 = syncCounts_computes_totals [OF h3]
  have k: "\<And>sh. keyOfShop sh =
              toLowerCase (name sh) @ ''-'' @ toLowerCase (ownerName sh) @ ''-''
                @ toLowerCase (address sh)"
    using t1 by blast
  have ke: "\<And>e. keyOfEntry e =
              toLowerCase (shopName e) @ ''-'' @ toLowerCase (entryOwnerName e) @ ''-''
                @ toLowerCase (entryAddress e)"
    using t1 by blast
  have low: "toLowerCase ''Nandu Shop'' = ''nandu shop'' \<and> toLowerCase ''Ram'' = ''ram''
      \<and> toLowerCase ''Delhi'' = ''delhi'' \<and> toLowerCase ''nandu shop'' = ''nandu shop''
      \<and> toLowerCase ''ram'' = ''ram'' \<and> toLowerCase ''delhi'' = ''delhi''
      \<and> toLowerCase ''A'' = ''a'' \<and> toLowerCase ''B'' = ''b'' \<and> toLowerCase ''C'' = ''c''
      \<and> toLowerCase ''X'' = ''x'' \<and> toLowerCase ''Y'' = ''y'' \<and> toLowerCase ''Z'' = ''z''"
    by code_simp
  have r1: "totalRetailCount dedupDb 1 dedupDist = 1"
    using t1 by (simp add: activeOfType_def unmatchedLegacy_def dedupDb_def dedupDist_def k ke low)
  have w1: "totalWholesaleCount dedupDb 1 dedupDist = 0"
    using t1 by (simp add: activeOfType_def unmatchedLegacy_def dedupDb_def dedupDist_def)
  have r2: "totalRetailCount additiveDb 1 additiveDist = 2"
    using t2
    by (simp add: activeOfType_def unmatchedLegacy_def additiveDb_def dedupDb_def
        additiveDist_def k ke low)
  have w2: "totalWholesaleCount additiveDb 1 additiveDist = 0"
    using t2
    by (simp add: activeOfType_def unmatchedLegacy_def additiveDb_def dedupDb_def additiveDist_def)
  have r3: "totalRetailCount nanduDb 1 nanduDist = 0"
    using t3 by (simp add: activeOfType_def unmatchedLegacy_def nanduDb_def nanduDist_def)
  have w3: "totalWholesaleCount nanduDb 1 nanduDist = 1"
    using t3
    by (simp add: activeOfType_def unmatchedLegacy_def nanduDb_def nanduDist_def k ke low)
  have c1: "map_option retailShopCount (distributors (syncDistributorShopCounts nofaults 1 dedupDb) 1)
      = Some 1"
    using h1 t1 r1 w1 by (simp add: dedupDist_def)
  have c2: "map_option retailShopCount (distributors (syncDistributorShopCounts nofaults 1 additiveDb) 1)
      = Some 2"
    using h2 t2 r2 w2 by (simp add: additiveDist_def)
  have c3: "map_option wholesaleShopCount (distributors (syncDistributorShopCounts nofaults 1 nanduDb) 1)
      = Some 1"
    using h3 t3 r3 w3 by (simp add: nanduDist_def)
  have c4: "keyOfShop \<lparr>shop_id = 20, name = ''Nandu Shop'', ownerName = ''Ram'', address = ''Delhi'',
         shopType = WholeSeller, distributorId = 1, createdBy = None, isActive = True\<rparr>
       = ''nandu shop-ram-delhi''"
    using low by (simp add: k)
  have c5: "keyOfEntry \<lparr>entry_id = 10, shopName = ''nandu shop'', entryOwnerName = ''ram'',
         entryAddress = ''delhi''\<rparr>
       = ''nandu shop-ram-delhi''"
    using low by (simp add: ke)
  from t1 have g: "\<forall>c. c \<notin> set ''ABCDEFGHIJKLMNOPQRSTUVWXYZ'' \<longrightarrow> of_char c < (128 :: nat)
              \<longrightarrow> toLowerCase [c] = [c]"
    by (elim conjE)
  from g [rule_format, of "CHR ''-''"] have c6: "toLowerCase ''-'' = ''-''"
    by simp
  from h1 c1 h2 c2 h3 c3 c4 c5 c6 show ?thesis by (intro conjI)
qed

text \<open>
  Claim C3. The reconciler is idempotent: a second call right after a first one leaves
  the store as it is, write counter included; it writes nothing whenever the computed
  totals are the stored counts; and the totals computed after a call are those computed
  before it.
\<close>

theorem syncCounts_idempotent:
  "syncDistributorShopCounts nofaults d (syncDistributorShopCounts nofaults d s)
     = syncDistributorShopCounts nofaults d s
   \<and> (\<forall>dist. distributors s d = Some dist \<longrightarrow>
          totalRetailCount s d dist = retailShopCount dist \<longrightarrow>
          totalWholesaleCount s d dist = wholesaleShopCount dist \<longrightarrow>
          syncDistributorShopCounts nofaults d s = s)
   \<and> (\<forall>dist. distributors s d = Some dist \<longrightarrow>
          (\<exists>dist'. distributors (syncDistributorShopCounts nofaults d s) d = Some dist'
             \<and> totalRetailCount (syncDistributorShopCounts nofaults d s) d dist'
                 = totalRetailCount s d dist
             \<and> totalWholesaleCount (syncDistributorShopCounts nofaults d s) d dist'
                 = totalWholesaleCount s d dist
             \<and> \<not> countsDiffer (syncDistributorShopCounts nofaults d s) d dist'))"
proof (intro conjI allI impI)
  fix dist
  assume "distributors s d = Some dist"
    and "totalRetailCount s d dist = retailShopCount dist"
    and "totalWholesaleCount s d dist = wholesaleShopCount dist"
  then show "syncDistributorShopCounts nofaults d s = s"
    by (simp add: sync_unchanged countsDiffer_def)
next
  fix dist
  assume h: "distributors s d = Some dist"
  let ?s' = "syncDistributorShopCounts nofaults d s"
  have "distributors ?s' d = Some (reconciled s d dist)
          \<and> totalRetailCount ?s' d (reconciled s d dist) = totalRetailCount s d dist
          \<and> totalWholesaleCount ?s' d (reconciled s d dist) = totalWholesaleCount s d dist
          \<and> \<not> countsDiffer ?s' d (reconciled s d dist)"
    using sync_reconciles [OF h] by (simp add: reconciled_totals reconciled_same)
  then show "\<exists>dist'. distributors ?s' d = Some dist'
          \<and> totalRetailCount ?s' d dist' = totalRetailCount s d dist
          \<and> totalWholesaleCount ?s' d dist' = totalWholesaleCount s d dist
          \<and> \<not> countsDiffer ?s' d dist'"
    by (rule exI)
next
  let ?s' = "syncDistributorShopCounts nofaults d s"
  show "syncDistributorShopCounts nofaults d ?s' = ?s'"
  proof (cases "distributors s d")
    case None
    then show ?thesis by (simp add: sync_missing)
  next
    case (Some dist)
    have "distributors ?s' d = Some (reconciled s d dist)"
      by (rule sync_reconciles [OF Some])
    moreover have "\<not> countsDiffer ?s' d (reconciled s d dist)"
      by (simp add: reconciled_same)
    ultimately show ?thesis by (rule sync_unchanged)
  qed
qed

theorem syncCounts_idempotent_witness:
  "distributors dedupDb 1 = Some dedupDist
   \<and> syncDistributorShopCounts nofaults 1 (syncDistributorShopCounts nofaults 1 dedupDb)
       = syncDistributorShopCounts nofaults 1 dedupDb
   \<and> (\<exists>dist'. distributors (syncDistributorShopCounts nofaults 1 dedupDb) 1 = Some dist'
         \<and> \<not> countsDiffer (syncDistributorShopCounts nofaults 1 dedupDb) 1 dist')
   \<and> distributors (dedupDb\<lparr>distributors := [1 \<mapsto> dedupDist\<lparr>retailShopCount := 1\<rparr>]\<rparr>) 1
       = Some (dedupDist\<lparr>retailShopCount := 1\<rparr>)
   \<and> totalRetailCount (dedupDb\<lparr>distributors := [1 \<mapsto> dedupDist\<lparr>retailShopCount := 1\<rparr>]\<rparr>) 1
         (dedupDist\<lparr>retailShopCount := 1\<rparr>) = 1
   \<and> totalWholesaleCount (dedupDb\<lparr>distributors := [1 \<mapsto> dedupDist\<lparr>retailShopCount := 1\<rparr>]\<rparr>) 1
         (dedupDist\<lparr>retailShopCount := 1\<rparr>) = 0
   \<and> syncDistributorShopCounts nofaults 1
         (dedupDb\<lparr>distributors := [1 \<mapsto> dedupDist\<lparr>retailShopCount := 1\<rparr>]\<rparr>)
       = dedupDb\<lparr>distributors := [1 \<mapsto> dedupDist\<lparr>retailShopCount := 1\<rparr>]\<rparr>"
proof -
  let ?s = "dedupDb\<lparr>distributors := [1 \<mapsto> dedupDist\<lparr>retailShopCount := 1\<rparr>]\<rparr>"
  let ?dist = "dedupDist\<lparr>retailShopCount := 1\<rparr>"
  have h: "distributors dedupDb 1 = Some dedupDist" by (simp add: dedupDb_def)
  have i: "syncDistributorShopCounts nofaults 1 (syncDistributorShopCounts nofaults 1 dedupDb)
       = syncDistributorShopCounts nofaults 1 dedupDb"
    using syncCounts_idempotent [of 1 dedupDb] by (rule conjunct1)
  have "\<forall>dist. distributors dedupDb 1 = Some dist \<longrightarrow>
          (\<exists>dist'. distributors (syncDistributorShopCounts nofaults 1 dedupDb) 1 = Some dist'
             \<and> totalRetailCount (syncDistributorShopCounts nofaults 1 dedupDb) 1 dist'
                 = totalRetailCount dedupDb 1 dist
             \<and> totalWholesaleCount (syncDistributorShopCounts nofaults 1 dedupDb) 1 dist'
                 = totalWholesaleCount dedupDb 1 dist
             \<and> \<not> countsDiffer (syncDistributorShopCounts nofaults 1 dedupDb) 1 dist')"
    using syncCounts_idempotent [of 1 dedupDb] by (elim conjE)
  with h have e: "\<exists>dist'. distributors (syncDistributorShopCounts nofaults 1 dedupDb) 1 = Some dist'
         \<and> \<not> countsDiffer (syncDistributorShopCounts nofaults 1 dedupDb) 1 dist'"
    by fast
  have h2: "distributors ?s 1 = Some ?dist" by simp
  have r: "totalRetailCount ?s 1 ?dist = 1"
    by (simp add: totalRetailCount_eq activeOfType_def unmatchedLegacy_def dedupDb_def
        dedupDist_def keyOfShop_def keyOfEntry_def shopKey_def toLowerCase_def lowerChar_def)
  have w: "totalWholesaleCount ?s 1 ?dist = 0"
    by (simp add: totalWholesaleCount_eq activeOfType_def unmatchedLegacy_def dedupDb_def
        dedupDist_def)
  have "\<forall>dist. distributors ?s 1 = Some dist \<longrightarrow>
          totalRetailCount ?s 1 dist = retailShopCount dist \<longrightarrow>
          totalWholesaleCount ?s 1 dist = wholesaleShopCount dist \<longrightarrow>
          syncDistributorShopCounts nofaults 1 ?s = ?s"
    using syncCounts_idempotent [of 1 ?s] by (elim conjE)
  then have "distributors ?s 1 = Some ?dist \<longrightarrow>
          totalRetailCount ?s 1 ?dist = retailShopCount ?dist \<longrightarrow>
          totalWholesaleCount ?s 1 ?dist = wholesaleShopCount ?dist \<longrightarrow>
          syncDistributorShopCounts nofaults 1 ?s = ?s"
    by (rule spec)
  with h2 r w have u: "syncDistributorShopCounts nofaults 1 ?s = ?s"
    by (simp add: dedupDist_def)
  from h i e h2 r w u show ?thesis by (intro conjI)
qed

section \<open>Properties of the store commands\<close>

lemma getField_reconciled [simp]: "getField fld (reconciled s d dist) = getField fld dist"
  by (simp add: getField_def reconciled_def split: legacy_field.splits)

lemma shops_updateDistributor [simp]: "shops (updateDistributor d g s) = shops s"
  by (simp add: updateDistributor_def split: option.splits)

lemma shops_pushEntry [simp]: "shops (pushEntry d fld n ow a s) = shops s"
  by (simp add: pushEntry_def)

lemma shops_pullEntries [simp]: "shops (pullEntries d fld n ow a s) = shops s"
  by (simp add: pullEntries_def)

lemma shops_patchEntry [simp]: "shops (patchEntry d fld n ow a n' ow' a' s) = shops s"
  by (simp add: patchEntry_def)

lemma shops_logError [simp]: "shops (logError m s) = shops s"
  by (simp add: logError_def)

lemma distributors_logError [simp]: "distributors (logError m s) = distributors s"
  by (simp add: logError_def)

lemma distributors_updateDistributor:
  "distributors (updateDistributor d g s) =
     (case distributors s d of None \<Rightarrow> distributors s
      | Some dist \<Rightarrow> (distributors s)(d \<mapsto> g dist))"
  by (simp add: updateDistributor_def split: option.splits)

lemma distributors_pushEntry:
  "distributors s d = Some dist \<Longrightarrow>
     distributors (pushEntry d fld n ow a s) =
       (distributors s)(d \<mapsto> setField fld (getField fld dist
          @ [\<lparr>entry_id = nextId s, shopName = n, entryOwnerName = ow, entryAddress = a\<rparr>]) dist)"
  by (simp add: pushEntry_def distributors_updateDistributor)

lemma distributors_pullEntries:
  "distributors s d = Some dist \<Longrightarrow>
     distributors (pullEntries d fld n ow a s) =
       (distributors s)(d \<mapsto> setField fld
          (filter (\<lambda>e. \<not> sameDetails n ow a e) (getField fld dist)) dist)"
  by (simp add: pullEntries_def distributors_updateDistributor)

lemma getField_setField:
  "getField fld (setField fld' es dist) = (if fld = fld' then es else getField fld dist)"
  by (simp add: getField_def setField_def split: legacy_field.splits)

lemma list_ex_sameDetails:
  "list_ex (sameDetails n ow a) es =
     (\<exists>e \<in> set es. shopName e = n \<and> entryOwnerName e = ow \<and> entryAddress e = a)"
  by (simp add: list_ex_iff sameDetails_def)

section \<open>Properties of addShop\<close>

lemma shopExists_iff:
  "shopExists b dist =
     (\<exists>e \<in> set (getField (fieldOfType (new_type b)) dist).
         shopName e = new_name b \<and> entryOwnerName e = new_ownerName b
           \<and> entryAddress e = new_address b)"
  by (simp add: shopExists_def Let_def list_ex_sameDetails)

lemma Shop_create_simps [simp]:
  "distributors (snd (Shop_create b t s)) = distributors s"
  "nextId (snd (Shop_create b t s)) = Suc (nextId s)"
  "shops (snd (Shop_create b t s)) = shops s @ [fst (Shop_create b t s)]"
  "shopType (fst (Shop_create b t s)) = t"
  "name (fst (Shop_create b t s)) = trim (new_name b)"
  "distributorId (fst (Shop_create b t s)) = new_distributorId b"
  "isActive (fst (Shop_create b t s))"
  by (simp_all add: Shop_create_def Let_def)

lemma addShopLegacy_nofaults:
  "addShopLegacy nofaults b dist sh s =
     (Json 201 (ShopData sh),
      syncDistributorShopCounts nofaults (new_distributorId b)
        (if shopExists b dist then s
         else pushEntry (new_distributorId b) (fieldOfType (new_type b))
                (new_name b) (new_ownerName b) (new_address b) s))"
  by (simp add: addShopLegacy_def nofaults_def)

text \<open>What a successful addShop has done.\<close>

lemma addShop_created:
  assumes "fst (addShop nofaults b s) = Json 201 (ShopData sh)"
  shows "\<exists>dist t.
     new_errorsEmpty b
     \<and> distributors s (new_distributorId b) = Some dist
     \<and> existingShop (new_name b) (new_distributorId b) s = None
     \<and> validateShop (new_name b) (new_ownerName b) (new_address b) (new_type b) = Some t
     \<and> sh = fst (Shop_create b t s)
     \<and> snd (addShop nofaults b s) =
         syncDistributorShopCounts nofaults (new_distributorId b)
           (if shopExists b dist then snd (Shop_create b t s)
            else pushEntry (new_distributorId b) (fieldOfType (new_type b))
                   (new_name b) (new_ownerName b) (new_address b) (snd (Shop_create b t s)))"
proof (cases "distributors s (new_distributorId b)")
  case None
  with assms show ?thesis
    by (simp add: addShop_def DistributorNotFound_def split: if_splits)
next
  case (Some dist)
  note d = this
  show ?thesis
  proof (cases "existingShop (new_name b) (new_distributorId b) s")
    case (Some y)
    with assms d show ?thesis
      by (simp add: addShop_def Conflict_def split: if_splits)
  next
    case None
    note n = this
    show ?thesis
    proof (cases "validateShop (new_name b) (new_ownerName b) (new_address b) (new_type b)")
      case None
      with assms d n show ?thesis
        by (simp add: addShop_def split: if_splits)
    next
      case (Some t)
      have v: "new_errorsEmpty b"
        using assms by (simp add: addShop_def split: if_splits)
      have "addShop nofaults b s =
              addShopLegacy nofaults b dist (fst (Shop_create b t s)) (snd (Shop_create b t s))"
        using v d n Some by (simp add: addShop_def split: prod.splits)
      with assms v d n Some show ?thesis
        by (simp add: addShopLegacy_nofaults)
    qed
  qed
qed


lemma addShop_distributor_after:
  assumes "fst (addShop nofaults b s) = Json 201 (ShopData sh)"
  shows "\<exists>dist dist'.
     distributors s (new_distributorId b) = Some dist
     \<and> distributors (snd (addShop nofaults b s)) (new_distributorId b) = Some dist'
     \<and> (\<forall>fld. getField fld dist' =
           (if fld = fieldOfType (new_type b) \<and> \<not> shopExists b dist
            then getField fld dist
                   @ [\<lparr>entry_id = Suc (nextId s), shopName = new_name b,
                        entryOwnerName = new_ownerName b, entryAddress = new_address b\<rparr>]
            else getField fld dist))"
proof -
  from addShop_created [OF assms] obtain dist t where
    d: "distributors s (new_distributorId b) = Some dist"
    and e: "snd (addShop nofaults b s) =
         syncDistributorShopCounts nofaults (new_distributorId b)
           (if shopExists b dist then snd (Shop_create b t s)
            else pushEntry (new_distributorId b) (fieldOfType (new_type b))
                   (new_name b) (new_ownerName b) (new_address b) (snd (Shop_create b t s)))"
    by (elim exE conjE)
  let ?d = "new_distributorId b"
  let ?fld = "fieldOfType (new_type b)"
  let ?s1 = "snd (Shop_create b t s)"
  let ?s2 = "if shopExists b dist then ?s1
             else pushEntry ?d ?fld (new_name b) (new_ownerName b) (new_address b) ?s1"
  let ?dist2 = "if shopExists b dist then dist
                else setField ?fld (getField ?fld dist
                  @ [\<lparr>entry_id = Suc (nextId s), shopName = new_name b,
                       entryOwnerName = new_ownerName b, entryAddress = new_address b\<rparr>]) dist"
  have d1: "distributors ?s1 ?d = Some dist" using d by simp
  have d2: "distributors ?s2 ?d = Some ?dist2"
    using d1 by (simp add: distributors_pushEntry)
  have d3: "distributors (snd (addShop nofaults b s)) ?d = Some (reconciled ?s2 ?d ?dist2)"
    unfolding e by (rule sync_reconciles [OF d2])
  have g: "\<forall>fld. getField fld (reconciled ?s2 ?d ?dist2) =
           (if fld = ?fld \<and> \<not> shopExists b dist
            then getField fld dist
                   @ [\<lparr>entry_id = Suc (nextId s), shopName = new_name b,
                        entryOwnerName = new_ownerName b, entryAddress = new_address b\<rparr>]
            else getField fld dist)"
    by (simp add: getField_setField)
  from d d3 g show ?thesis by (intro exI conjI)
qed

lemma fst_addShopLegacy:
  "fst (addShopLegacy f b dist sh s) =
     (if mirror_fails f \<and> \<not> shopExists b dist then Next StoreError else Json 201 (ShopData sh))"
  by (simp add: addShopLegacy_def)

lemma fst_addShop:
  "fst (addShop f b s) = fst (addShop nofaults b s)
     \<or> mirror_fails f \<and> fst (addShop f b s) = Next StoreError"
  by (simp add: addShop_def fst_addShopLegacy nofaults_def split: option.splits prod.splits)

lemma validateShop_type:
  "validateShop n ow a t = Some ty \<Longrightarrow>
     (t = ''Retailer'' \<and> ty = Retailer) \<or> (t = ''Whole Seller'' \<and> ty = WholeSeller)"
  by (simp add: validateShop_def castType_def split: if_splits)

lemma addShop_arrays_nofaults:
  assumes "fst (addShop nofaults b s) = Json 201 (ShopData sh)"
  shows "((new_type b = ''Retailer'' \<and> shopType sh = Retailer)
            \<or> (new_type b = ''Whole Seller'' \<and> shopType sh = WholeSeller))
       \<and> (\<exists>dist dist'.
           distributors s (new_distributorId b) = Some dist
         \<and> distributors (snd (addShop nofaults b s)) (new_distributorId b) = Some dist'
         \<and> retailShops dist' =
             (if new_type b = ''Retailer''
                 \<and> (\<forall>e \<in> set (retailShops dist).
                       \<not> (shopName e = new_name b \<and> entryOwnerName e = new_ownerName b
                           \<and> entryAddress e = new_address b))
              then retailShops dist
                     @ [\<lparr>entry_id = Suc (nextId s), shopName = new_name b,
                          entryOwnerName = new_ownerName b, entryAddress = new_address b\<rparr>]
              else retailShops dist)
         \<and> wholesaleShops dist' =
             (if new_type b = ''Whole Seller''
                 \<and> (\<forall>e \<in> set (wholesaleShops dist).
                       \<not> (shopName e = new_name b \<and> entryOwnerName e = new_ownerName b
                           \<and> entryAddress e = new_address b))
              then wholesaleShops dist
                     @ [\<lparr>entry_id = Suc (nextId s), shopName = new_name b,
                          entryOwnerName = new_ownerName b, entryAddress = new_address b\<rparr>]
              else wholesaleShops dist))"
proof -
  from addShop_created [OF assms] obtain dist0 t where
    v: "validateShop (new_name b) (new_ownerName b) (new_address b) (new_type b) = Some t"
    and sh: "sh = fst (Shop_create b t s)"
    by (elim exE conjE)
  from validateShop_type [OF v]
  have ty: "(new_type b = ''Retailer'' \<and> shopType sh = Retailer)
            \<or> (new_type b = ''Whole Seller'' \<and> shopType sh = WholeSeller)"
    by (simp add: sh)
  from addShop_distributor_after [OF assms] obtain dist dist' where
    d: "distributors s (new_distributorId b) = Some dist"
    and d': "distributors (snd (addShop nofaults b s)) (new_distributorId b) = Some dist'"
    and g: "\<forall>fld. getField fld dist' =
           (if fld = fieldOfType (new_type b) \<and> \<not> shopExists b dist
            then getField fld dist
                   @ [\<lparr>entry_id = Suc (nextId s), shopName = new_name b,
                        entryOwnerName = new_ownerName b, entryAddress = new_address b\<rparr>]
            else getField fld dist)"
    by (elim exE conjE)
  have r: "retailShops dist' =
             (if new_type b = ''Retailer''
                 \<and> (\<forall>e \<in> set (retailShops dist).
                       \<not> (shopName e = new_name b \<and> entryOwnerName e = new_ownerName b
                           \<and> entryAddress e = new_address b))
              then retailShops dist
                     @ [\<lparr>entry_id = Suc (nextId s), shopName = new_name b,
                          entryOwnerName = new_ownerName b, entryAddress = new_address b\<rparr>]
              else retailShops dist)"
    using g [rule_format, of RetailShopsField] ty
    by (auto simp: getField_def fieldOfType_def shopExists_iff)
  have w: "wholesaleShops dist' =
             (if new_type b = ''Whole Seller''
                 \<and> (\<forall>e \<in> set (wholesaleShops dist).
                       \<not> (shopName e = new_name b \<and> entryOwnerName e = new_ownerName b
                           \<and> entryAddress e = new_address b))
              then wholesaleShops dist
                     @ [\<lparr>entry_id = Suc (nextId s), shopName = new_name b,
                          entryOwnerName = new_ownerName b, entryAddress = new_address b\<rparr>]
              else wholesaleShops dist)"
    using g [rule_format, of WholesaleShopsField] ty
    by (auto simp: getField_def fieldOfType_def shopExists_iff)
  from d d' r w have "\<exists>dist dist'.
           distributors s (new_distributorId b) = Some dist
         \<and> distributors (snd (addShop nofaults b s)) (new_distributorId b) = Some dist'
         \<and> retailShops dist' =
             (if new_type b = ''Retailer''
                 \<and> (\<forall>e \<in> set (retailShops dist).
                       \<not> (shopName e = new_name b \<and> entryOwnerName e = new_ownerName b
                           \<and> entryAddress e = new_address b))
              then retailShops dist
                     @ [\<lparr>entry_id = Suc (nextId s), shopName = new_name b,
                          entryOwnerName = new_ownerName b, entryAddress = new_address b\<rparr>]
              else retailShops dist)
         \<and> wholesaleShops dist' =
             (if new_type b = ''Whole Seller''
                 \<and> (\<forall>e \<in> set (wholesaleShops dist).
                       \<not> (shopName e = new_name b \<and> entryOwnerName e = new_ownerName b
                           \<and> entryAddress e = new_address b))
              then wholesaleShops dist
                     @ [\<lparr>entry_id = Suc (nextId s), shopName = new_name b,
                          entryOwnerName = new_ownerName b, entryAddress = new_address b\<rparr>]
              else wholesaleShops dist)"
    by (intro exI conjI)
  with ty show ?thesis by (rule conjI)
qed


lemma addShop_unfold:
  assumes ok: "fst (addShop nofaults b s) = Json 201 (ShopData sh)"
    and d: "distributors s (new_distributorId b) = Some dist"
  shows "addShop f b s =
           addShopLegacy f b dist sh (s\<lparr>shops := shops s @ [sh], nextId := Suc (nextId s)\<rparr>)"
proof -
  from addShop_created [OF ok] obtain dist' t where
    v: "new_errorsEmpty b"
    and d': "distributors s (new_distributorId b) = Some dist'"
    and n: "existingShop (new_name b) (new_distributorId b) s = None"
    and t: "validateShop (new_name b) (new_ownerName b) (new_address b) (new_type b) = Some t"
    and sh: "sh = fst (Shop_create b t s)"
    by (elim exE conjE)
  from d d' have e: "dist' = dist" by simp
  have c: "Shop_create b t s = (sh, s\<lparr>shops := shops s @ [sh], nextId := Suc (nextId s)\<rparr>)"
    unfolding sh by (simp add: Shop_create_def Let_def)
  show ?thesis
    using v d n t c by (simp add: addShop_def)
qed


lemma sync_arrays:
  "map_option retailShops (distributors (syncDistributorShopCounts f d s) d')
     = map_option retailShops (distributors s d')"
  "map_option wholesaleShops (distributors (syncDistributorShopCounts f d s) d')
     = map_option wholesaleShops (distributors s d')"
  by (simp_all add: syncDistributorShopCounts_def logError_def writeCounts_def
      updateDistributor_def split: option.splits)

lemma addShopLegacy_arrays:
  assumes "fst (addShopLegacy f b dist sh s) = Json 201 (ShopData sh')"
  shows "map_option retailShops (distributors (snd (addShopLegacy f b dist sh s)) d)
           = map_option retailShops (distributors (snd (addShopLegacy nofaults b dist sh s)) d)"
    and "map_option wholesaleShops (distributors (snd (addShopLegacy f b dist sh s)) d)
           = map_option wholesaleShops (distributors (snd (addShopLegacy nofaults b dist sh s)) d)"
  using assms
  by (simp_all add: addShopLegacy_def sync_arrays nofaults_def split: if_splits)

lemma addShop_arrays_faults:
  assumes ok: "fst (addShop f b s) = Json 201 (ShopData sh)"
  shows "fst (addShop nofaults b s) = Json 201 (ShopData sh)"
    and "map_option retailShops (distributors (snd (addShop f b s)) d)
           = map_option retailShops (distributors (snd (addShop nofaults b s)) d)"
    and "map_option wholesaleShops (distributors (snd (addShop f b s)) d)
           = map_option wholesaleShops (distributors (snd (addShop nofaults b s)) d)"
proof -
  from fst_addShop [of f b s] ok show n: "fst (addShop nofaults b s) = Json 201 (ShopData sh)"
    by auto
  from addShop_created [OF n] obtain dist where
    d: "distributors s (new_distributorId b) = Some dist"
    by (elim exE conjE)
  note e = addShop_unfold [OF n d]
  from ok have l: "fst (addShopLegacy f b dist sh
      (s\<lparr>shops := shops s @ [sh], nextId := Suc (nextId s)\<rparr>)) = Json 201 (ShopData sh)"
    unfolding e [of f] .
  show "map_option retailShops (distributors (snd (addShop f b s)) d)
           = map_option retailShops (distributors (snd (addShop nofaults b s)) d)"
    unfolding e [of f] e [of nofaults] by (rule addShopLegacy_arrays(1) [OF l])
  show "map_option wholesaleShops (distributors (snd (addShop f b s)) d)
           = map_option wholesaleShops (distributors (snd (addShop nofaults b s)) d)"
    unfolding e [of f] e [of nofaults] by (rule addShopLegacy_arrays(2) [OF l])
qed

text \<open>
  Claim C6, as amended. When addShop answers with the new Shop record, whatever store
  calls reject on the way, the type of the request is 'Retailer' or 'Whole Seller' and
  the record has that type. For 'Retailer' the array \<open>retailShops\<close> has one more entry
  at its end, made of the name, owner name and address of the request, if and only if no
  entry of \<open>retailShops\<close> had exactly these three strings, and \<open>wholesaleShops\<close> is
  as before; for 'Whole Seller' the same holds with the two arrays exchanged. The
  comparison is \<open>===\<close> on each field, so it distinguishes upper and lower case.
\<close>

theorem addShop_mirror_exact_match:
  assumes "fst (addShop f b s) = Json 201 (ShopData sh)"
  shows "((new_type b = ''Retailer'' \<and> shopType sh = Retailer)
            \<or> (new_type b = ''Whole Seller'' \<and> shopType sh = WholeSeller))
       \<and> (\<exists>dist dist'.
           distributors s (new_distributorId b) = Some dist
         \<and> distributors (snd (addShop f b s)) (new_distributorId b) = Some dist'
         \<and> retailShops dist' =
             (if new_type b = ''Retailer''
                 \<and> (\<forall>e \<in> set (retailShops dist).
                       \<not> (shopName e = new_name b \<and> entryOwnerName e = new_ownerName b
                           \<and> entryAddress e = new_address b))
              then retailShops dist
                     @ [\<lparr>entry_id = Suc (nextId s), shopName = new_name b,
                          entryOwnerName = new_ownerName b, entryAddress = new_address b\<rparr>]
              else retailShops dist)
         \<and> wholesaleShops dist' =
             (if new_type b = ''Whole Seller''
                 \<and> (\<forall>e \<in> set (wholesaleShops dist).
                       \<not> (shopName e = new_name b \<and> entryOwnerName e = new_ownerName b
                           \<and> entryAddress e = new_address b))
              then wholesaleShops dist
                     @ [\<lparr>entry_id = Suc (nextId s), shopName = new_name b,
                          entryOwnerName = new_ownerName b, entryAddress = new_address b\<rparr>]
              else wholesaleShops dist))"
proof -
  note n = addShop_arrays_faults(1) [OF assms]
  from addShop_arrays_nofaults [OF n] obtain dist dist0 where
    ty: "(new_type b = ''Retailer'' \<and> shopType sh = Retailer)
            \<or> (new_type b = ''Whole Seller'' \<and> shopType sh = WholeSeller)"
    and d: "distributors s (new_distributorId b) = Some dist"
    and d0: "distributors (snd (addShop nofaults b s)) (new_distributorId b) = Some dist0"
    and r0: "retailShops dist0 =
             (if new_type b = ''Retailer''
                 \<and> (\<forall>e \<in> set (retailShops dist).
                       \<not> (shopName e = new_name b \<and> entryOwnerName e = new_ownerName b
                           \<and> entryAddress e = new_address b))
              then retailShops dist
                     @ [\<lparr>entry_id = Suc (nextId s), shopName = new_name b,
                          entryOwnerName = new_ownerName b, entryAddress = new_address b\<rparr>]
              else retailShops dist)"
    and w0: "wholesaleShops dist0 =
             (if new_type b = ''Whole Seller''
                 \<and> (\<forall>e \<in> set (wholesaleShops dist).
                       \<not> (shopName e = new_name b \<and> entryOwnerName e = new_ownerName b
                           \<and> entryAddress e = new_address b))
              then wholesaleShops dist
                     @ [\<lparr>entry_id = Suc (nextId s), shopName = new_name b,
                          entryOwnerName = new_ownerName b, entryAddress = new_address b\<rparr>]
              else wholesaleShops dist)"
    by (elim exE conjE)
  from addShop_arrays_faults(2) [OF assms, of "new_distributorId b"] d0
  obtain dist' where
    d': "distributors (snd (addShop f b s)) (new_distributorId b) = Some dist'"
    and r1: "retailShops dist' = retailShops dist0"
    by auto
  from addShop_arrays_faults(3) [OF assms, of "new_distributorId b"] d0 d'
  have w1: "wholesaleShops dist' = wholesaleShops dist0"
    by simp
  have r: "retailShops dist' =
             (if new_type b = ''Retailer''
                 \<and> (\<forall>e \<in> set (retailShops dist).
                       \<not> (shopName e = new_name b \<and> entryOwnerName e = new_ownerName b
                           \<and> entryAddress e = new_address b))
              then retailShops dist
                     @ [\<lparr>entry_id = Suc (nextId s), shopName = new_name b,
                          entryOwnerName = new_ownerName b, entryAddress = new_address b\<rparr>]
              else retailShops dist)"
    unfolding r1 by (rule r0)
  have w: "wholesaleShops dist' =
             (if new_type b = ''Whole Seller''
                 \<and> (\<forall>e \<in> set (wholesaleShops dist).
                       \<not> (shopName e = new_name b \<and> entryOwnerName e = new_ownerName b
                           \<and> entryAddress e = new_address b))
              then wholesaleShops dist
                     @ [\<lparr>entry_id = Suc (nextId s), shopName = new_name b,
                          entryOwnerName = new_ownerName b, entryAddress = new_address b\<rparr>]
              else wholesaleShops dist)"
    unfolding w1 by (rule w0)
  from d d' r w have "\<exists>dist dist'.
           distributors s (new_distributorId b) = Some dist
         \<and> distributors (snd (addShop f b s)) (new_distributorId b) = Some dist'
         \<and> retailShops dist' =
             (if new_type b = ''Retailer''
                 \<and> (\<forall>e \<in> set (retailShops dist).
                       \<not> (shopName e = new_name b \<and> entryOwnerName e = new_ownerName b
                           \<and> entryAddress e = new_address b))
              then retailShops dist
                     @ [\<lparr>entry_id = Suc (nextId s), shopName = new_name b,
                          entryOwnerName = new_ownerName b, entryAddress = new_address b\<rparr>]
              else retailShops dist)
         \<and> wholesaleShops dist' =
             (if new_type b = ''Whole Seller''
                 \<and> (\<forall>e \<in> set (wholesaleShops dist).
                       \<not> (shopName e = new_name b \<and> entryOwnerName e = new_ownerName b
                           \<and> entryAddress e = new_address b))
              then wholesaleShops dist
                     @ [\<lparr>entry_id = Suc (nextId s), shopName = new_name b,
                          entryOwnerName = new_ownerName b, entryAddress = new_address b\<rparr>]
              else wholesaleShops dist)"
    by (intro exI conjI)
  with ty show ?thesis by (rule conjI)
qed

theorem addShop_mirror_exact_match_witness:
  "fst (addShop \<lparr>mirror_fails = False, sync_fails = True\<rparr> caseBody caseDb)
         = Json 201 (ShopData caseShop)
   \<and> (\<exists>dist'.
             distributors (snd (addShop \<lparr>mirror_fails = False, sync_fails = True\<rparr> caseBody caseDb)) 1
               = Some dist'
           \<and> retailShops dist' =
               [\<lparr>entry_id = 10, shopName = ''a'', entryOwnerName = ''b'', entryAddress = ''c''\<rparr>,
                \<lparr>entry_id = 31, shopName = ''A'', entryOwnerName = ''B'', entryAddress = ''C''\<rparr>]
           \<and> wholesaleShops dist' = [])
   \<and> fst (addShop nofaults wholesaleBody caseDb)
         = Json 201 (ShopData
             \<lparr>shop_id = 30, name = ''W'', ownerName = ''O'', address = ''A'',
              shopType = WholeSeller, distributorId = 1, createdBy = Some 7, isActive = True\<rparr>)
   \<and> (\<exists>dist'.
             distributors (snd (addShop nofaults wholesaleBody caseDb)) 1
               = Some dist'
           \<and> retailShops dist' =
               [\<lparr>entry_id = 10, shopName = ''a'', entryOwnerName = ''b'', entryAddress = ''c''\<rparr>]
           \<and> wholesaleShops dist' =
               [\<lparr>entry_id = 31, shopName = ''W'', entryOwnerName = ''O'', entryAddress = ''A''\<rparr>])
   \<and> fst (addShop \<lparr>mirror_fails = True, sync_fails = False\<rparr> wholesaleBody filterDb)
         = Json 201 (ShopData
             \<lparr>shop_id = 30, name = ''W'', ownerName = ''O'', address = ''A'',
              shopType = WholeSeller, distributorId = 1, createdBy = Some 7, isActive = True\<rparr>)
   \<and> (\<exists>dist'.
             distributors (snd (addShop \<lparr>mirror_fails = True, sync_fails = False\<rparr> wholesaleBody filterDb)) 1
               = Some dist'
           \<and> retailShops dist' = []
           \<and> wholesaleShops dist' =
               [\<lparr>entry_id = 11, shopName = ''W'', entryOwnerName = ''O'', entryAddress = ''A''\<rparr>])"
proof -
  have h1:
    "fst (addShop \<lparr>mirror_fails = False, sync_fails = True\<rparr> caseBody caseDb)
       = Json 201 (ShopData caseShop)"
    by code_simp
  from addShop_mirror_exact_match [OF h1, THEN conjunct2]
  have c1:
    "(\<exists>dist'.
           distributors (snd (addShop \<lparr>mirror_fails = False, sync_fails = True\<rparr> caseBody caseDb)) 1
             = Some dist'
         \<and> retailShops dist' =
             [\<lparr>entry_id = 10, shopName = ''a'', entryOwnerName = ''b'', entryAddress = ''c''\<rparr>,
              \<lparr>entry_id = 31, shopName = ''A'', entryOwnerName = ''B'', entryAddress = ''C''\<rparr>]
         \<and> wholesaleShops dist' = [])"
    by (auto simp: caseBody_def caseDb_def caseDist_def wholesaleBody_def filterDb_def
        filterDist_def)
  have h2:
    "fst (addShop nofaults wholesaleBody caseDb)
       = Json 201 (ShopData
           \<lparr>shop_id = 30, name = ''W'', ownerName = ''O'', address = ''A'',
            shopType = WholeSeller, distributorId = 1, createdBy = Some 7, isActive = True\<rparr>)"
    by code_simp
  from addShop_mirror_exact_match [OF h2, THEN conjunct2]
  have c2:
    "(\<exists>dist'.
           distributors (snd (addShop nofaults wholesaleBody caseDb)) 1
             = Some dist'
         \<and> retailShops dist' =
             [\<lparr>entry_id = 10, shopName = ''a'', entryOwnerName = ''b'', entryAddress = ''c''\<rparr>]
         \<and> wholesaleShops dist' =
             [\<lparr>entry_id = 31, shopName = ''W'', entryOwnerName = ''O'', entryAddress = ''A''\<rparr>])"
    by (auto simp: caseBody_def caseDb_def caseDist_def wholesaleBody_def filterDb_def
        filterDist_def)
  have h3:
    "fst (addShop \<lparr>mirror_fails = True, sync_fails = False\<rparr> wholesaleBody filterDb)
       = Json 201 (ShopData
           \<lparr>shop_id = 30, name = ''W'', ownerName = ''O'', address = ''A'',
            shopType = WholeSeller, distributorId = 1, createdBy = Some 7, isActive = True\<rparr>)"
    by code_simp
  from addShop_mirror_exact_match [OF h3, THEN conjunct2]
  have c3:
    "(\<exists>dist'.
           distributors (snd (addShop \<lparr>mirror_fails = True, sync_fails = False\<rparr> wholesaleBody filterDb)) 1
             = Some dist'
         \<and> retailShops dist' = []
         \<and> wholesaleShops dist' =
             [\<lparr>entry_id = 11, shopName = ''W'', entryOwnerName = ''O'', entryAddress = ''A''\<rparr>])"
    by (auto simp: caseBody_def caseDb_def caseDist_def wholesaleBody_def filterDb_def
        filterDist_def)
  from h1 c1 h2 c2 h3 c3 show ?thesis by (intro conjI)
qed

text \<open>
  The claim as stated fails: the array holds an entry with the identity key of the new
  shop, written in lower case, and the entry of the new shop is appended all the same.
\<close>

theorem addShop_mirror_identity_key_counterexample:
  "map keyOfEntry (retailShops caseDist)
     = [shopKey (new_name caseBody) (new_ownerName caseBody) (new_address caseBody)]
   \<and> fst (addShop nofaults caseBody caseDb) =
       Json 201 (ShopData \<lparr>shop_id = 30, name = ''A'', ownerName = ''B'', address = ''C'',
         shopType = Retailer, distributorId = 1, createdBy = Some 7, isActive = True\<rparr>)
   \<and> map_option retailShops (distributors (snd (addShop nofaults caseBody caseDb)) 1) =
       Some (retailShops caseDist
         @ [\<lparr>entry_id = 31, shopName = ''A'', entryOwnerName = ''B'', entryAddress = ''C''\<rparr>])"
  by code_simp


lemma find_Some_ex:
  "\<exists>x \<in> set xs. P x \<Longrightarrow> \<exists>y. find P xs = Some y"
  by (cases "find P xs") (auto simp: find_None_iff)

lemma addShop_Conflict:
  assumes "new_errorsEmpty b" and "distributors s (new_distributorId b) = Some dist"
    and "\<exists>x \<in> set (shops s). name x = trim (new_name b)
             \<and> distributorId x = new_distributorId b \<and> isActive x"
  shows "addShop f b s = (Conflict, s)"
proof -
  from assms(3) have "\<exists>y. existingShop (new_name b) (new_distributorId b) s = Some y"
    unfolding existingShop_def by (rule find_Some_ex)
  then obtain y where "existingShop (new_name b) (new_distributorId b) s = Some y" ..
  with assms(1,2) show ?thesis by (simp add: addShop_def)
qed

text \<open>
  Claim C5. When the distributor has an active Shop record with the name of the request
  (the name as the store holds it, trimmed), addShop answers Conflict and leaves the
  store as it is, whatever the other fields of the request are. In particular, after a
  successful addShop a second request with the same name for the same distributor gets
  Conflict, changes nothing, and the distributor has exactly one active shop with that
  name.
\<close>

theorem addShop_conflict_on_name:
  "(new_errorsEmpty b \<and> distributors s (new_distributorId b) \<noteq> None
      \<and> (\<exists>x \<in> set (shops s). name x = trim (new_name b)
             \<and> distributorId x = new_distributorId b \<and> isActive x)
      \<longrightarrow> addShop f b s = (Conflict, s))
   \<and> (fst (addShop nofaults b s) = Json 201 (ShopData sh)
        \<and> new_errorsEmpty b' \<and> new_name b' = new_name b
        \<and> new_distributorId b' = new_distributorId b
      \<longrightarrow> addShop f b' (snd (addShop nofaults b s)) = (Conflict, snd (addShop nofaults b s))
          \<and> length (filter (\<lambda>x. name x = trim (new_name b)
                \<and> distributorId x = new_distributorId b \<and> isActive x)
                  (shops (snd (addShop nofaults b s)))) = 1)"
proof (intro conjI impI)
  assume a: "new_errorsEmpty b \<and> distributors s (new_distributorId b) \<noteq> None
      \<and> (\<exists>x \<in> set (shops s). name x = trim (new_name b)
             \<and> distributorId x = new_distributorId b \<and> isActive x)"
  then obtain dist where "distributors s (new_distributorId b) = Some dist" by auto
  with a show "addShop f b s = (Conflict, s)"
    by (intro addShop_Conflict) simp_all
next
  assume a: "fst (addShop nofaults b s) = Json 201 (ShopData sh)
        \<and> new_errorsEmpty b' \<and> new_name b' = new_name b
        \<and> new_distributorId b' = new_distributorId b"
  let ?s' = "snd (addShop nofaults b s)"
  let ?P = "\<lambda>x. name x = trim (new_name b) \<and> distributorId x = new_distributorId b \<and> isActive x"
  from a have ok: "fst (addShop nofaults b s) = Json 201 (ShopData sh)" by simp
  from addShop_created [OF ok] obtain dist t where
    n: "existingShop (new_name b) (new_distributorId b) s = None"
    and e: "snd (addShop nofaults b s) =
         syncDistributorShopCounts nofaults (new_distributorId b)
           (if shopExists b dist then snd (Shop_create b t s)
            else pushEntry (new_distributorId b) (fieldOfType (new_type b))
                   (new_name b) (new_ownerName b) (new_address b) (snd (Shop_create b t s)))"
    by (elim exE conjE)
  have sh': "shops ?s' = shops s @ [fst (Shop_create b t s)]"
    unfolding e by simp
  from n have old: "filter ?P (shops s) = []"
    by (auto simp: existingShop_def find_None_iff filter_empty_conv)
  show "length (filter ?P (shops ?s')) = 1"
    using old by (simp add: sh')
  from addShop_distributor_after [OF ok] obtain dist' where
    d': "distributors ?s' (new_distributorId b') = Some dist'"
    using a by auto
  have "\<exists>x \<in> set (shops ?s'). name x = trim (new_name b')
             \<and> distributorId x = new_distributorId b' \<and> isActive x"
    using a by (simp add: sh')
  with a d' show "addShop f b' ?s' = (Conflict, ?s')"
    by (intro addShop_Conflict) simp_all
qed


theorem addShop_conflict_on_name_witness:
  "fst (addShop nofaults caseBody caseDb) = Json 201 (ShopData caseShop)
   \<and> addShop nofaults sameNameBody (snd (addShop nofaults caseBody caseDb))
       = (Conflict, snd (addShop nofaults caseBody caseDb))
   \<and> length (filter (\<lambda>x. name x = trim (new_name caseBody)
                \<and> distributorId x = new_distributorId caseBody \<and> isActive x)
                  (shops (snd (addShop nofaults caseBody caseDb)))) = 1
   \<and> (\<exists>x \<in> set (shops (snd (addShop nofaults caseBody caseDb))).
          name x = trim (new_name sameNameBody)
             \<and> distributorId x = new_distributorId sameNameBody \<and> isActive x)
   \<and> addShop \<lparr>mirror_fails = True, sync_fails = True\<rparr> sameNameBody
         (snd (addShop nofaults caseBody caseDb))
       = (Conflict, snd (addShop nofaults caseBody caseDb))"
proof -
  have h1: "fst (addShop nofaults caseBody caseDb) = Json 201 (ShopData caseShop)
        \<and> new_errorsEmpty sameNameBody \<and> new_name sameNameBody = new_name caseBody
        \<and> new_distributorId sameNameBody = new_distributorId caseBody"
    by code_simp
  have h2: "new_errorsEmpty sameNameBody
      \<and> distributors (snd (addShop nofaults caseBody caseDb)) (new_distributorId sameNameBody) \<noteq> None
      \<and> (\<exists>x \<in> set (shops (snd (addShop nofaults caseBody caseDb))).
             name x = trim (new_name sameNameBody)
             \<and> distributorId x = new_distributorId sameNameBody \<and> isActive x)"
    by code_simp
  from h1 addShop_conflict_on_name
         [where b = caseBody and s = caseDb and sh = caseShop and b' = sameNameBody
            and f = nofaults]
  have c1: "addShop nofaults sameNameBody (snd (addShop nofaults caseBody caseDb))
       = (Conflict, snd (addShop nofaults caseBody caseDb))
   \<and> length (filter (\<lambda>x. name x = trim (new_name caseBody)
                \<and> distributorId x = new_distributorId caseBody \<and> isActive x)
                  (shops (snd (addShop nofaults caseBody caseDb)))) = 1"
    by fast
  from h2 addShop_conflict_on_name
         [where b = sameNameBody and s = "snd (addShop nofaults caseBody caseDb)"
            and f = "\<lparr>mirror_fails = True, sync_fails = True\<rparr>"]
  have c2: "addShop \<lparr>mirror_fails = True, sync_fails = True\<rparr> sameNameBody
         (snd (addShop nofaults caseBody caseDb))
       = (Conflict, snd (addShop nofaults caseBody caseDb))"
    by fast
  from h1 h2 c1 c2 show ?thesis by (intro conjI) (elim conjE, assumption)+
qed

section \<open>Properties of updateShop\<close>

text \<open>
  Claim C4. A transfer should remove the legacy entry that matches the name, owner name
  and address the shop had before the update. The handler assigns the updated document
  to \<open>shop\<close> before it builds the \<open>$pull\<close>, so the entry is looked up by the new
  values: when the same request also renames the shop, the old entry of distributor 1
  stays, and distributor 1, with no active shop left, keeps the count 1.
\<close>

theorem updateShop_transfer_keeps_renamed_entry:
  "Shop_findById 20 transferDb =
     Some \<lparr>shop_id = 20, name = ''A'', ownerName = ''B'', address = ''C'',
            shopType = Retailer, distributorId = 1, createdBy = None, isActive = True\<rparr>
   \<and> fst (updateShop nofaults 20 transferBody transferDb) =
       Json 200 (ShopData \<lparr>shop_id = 20, name = ''A2'', ownerName = ''B'', address = ''C'',
            shopType = Retailer, distributorId = 2, createdBy = None, isActive = True\<rparr>)
   \<and> distributors (snd (updateShop nofaults 20 transferBody transferDb)) 1 =
       Some \<lparr>retailShops = [\<lparr>entry_id = 10, shopName = ''A'', entryOwnerName = ''B'',
                                entryAddress = ''C''\<rparr>],
              wholesaleShops = [], retailShopCount = 1, wholesaleShopCount = 0\<rparr>
   \<and> distributors (snd (updateShop nofaults 20 transferBody transferDb)) 2 =
       Some \<lparr>retailShops = [\<lparr>entry_id = 30, shopName = ''A2'', entryOwnerName = ''B'',
                                entryAddress = ''C''\<rparr>],
              wholesaleShops = [], retailShopCount = 1, wholesaleShopCount = 0\<rparr>
   \<and> activeOfType (snd (updateShop nofaults 20 transferBody transferDb)) 1 Retailer = []"
  by code_simp

section \<open>Properties of getShopsByDistributor\<close>

lemma foldl_map_upd_None:
  "(foldl (\<lambda>m sh. m(keyOfShop sh \<mapsto> sh)) m0 xs k = None)
     = (m0 k = None \<and> k \<notin> keyOfShop ` set xs)"
  by (induction xs arbitrary: m0) auto

lemma shopCollectionMap_None:
  "(shopCollectionMap xs k = None) = (k \<notin> keyOfShop ` set xs)"
  by (simp add: shopCollectionMap_def foldl_map_upd_None)

lemma legacyViews_eq:
  "legacyViews d t m es =
     map (\<lambda>e. LegacyObj (legacyView d t e)) (filter (\<lambda>e. m (keyOfEntry e) = None) es)"
  by (induction es) (simp_all add: legacyViews_def List.map_filter_simps)

lemma mset_insertBy: "mset (insertBy le x xs) = add_mset x (mset xs)"
  by (induction xs) simp_all

lemma sortBy_Cons: "sortBy le (x # xs) = insertBy le x (sortBy le xs)"
  by (simp add: sortBy_def)

lemma mset_sortBy: "mset (sortBy le xs) = mset xs"
  by (induction xs) (simp_all add: sortBy_Cons mset_insertBy, simp add: sortBy_def)

lemma set_insertBy: "set (insertBy le x xs) = insert x (set xs)"
  by (induction xs) auto

lemma sorted_insertBy:
  assumes tot: "\<And>a b. le a b \<or> le b a" and tr: "\<And>a b c. le a b \<Longrightarrow> le b c \<Longrightarrow> le a c"
    and "sorted_wrt le xs"
  shows "sorted_wrt le (insertBy le x xs)"
  using assms(3)
proof (induction xs)
  case Nil
  then show ?case by simp
next
  case (Cons y ys)
  show ?case
  proof (cases "le x y")
    case True
    have "\<forall>z \<in> set ys. le x z"
      using Cons.prems True tr by auto
    with True Cons.prems show ?thesis by simp
  next
    case False
    with tot have "le y x" by blast
    with False Cons show ?thesis by (simp add: set_insertBy)
  qed
qed

lemma sorted_sortBy:
  assumes "\<And>a b. le a b \<or> le b a" and "\<And>a b c. le a b \<Longrightarrow> le b c \<Longrightarrow> le a c"
  shows "sorted_wrt le (sortBy le xs)"
proof (induction xs)
  case Nil
  show ?case by (simp add: sortBy_def)
next
  case (Cons x xs)
  show ?case
    unfolding sortBy_Cons using assms Cons by (rule sorted_insertBy)
qed

lemma legacyViews_unmatched:
  "legacyViews d t (shopCollectionMap (sort_key name (filter Q xs))) es =
     map (\<lambda>e. LegacyObj (legacyView d t e))
       (filter (\<lambda>e. keyOfEntry e \<notin> set (map keyOfShop (filter Q xs))) es)"
  by (simp add: legacyViews_eq shopCollectionMap_None)

lemma allShops_mset:
  "mset (allShops le d ty s dist) =
     mset (map ShopDoc (filter (matchesQuery d ty) (shops s)))
     + mset (if \<not> truthy ty \<or> ty = Some ''Retailer''
             then map (\<lambda>e. LegacyObj (legacyView d Retailer e))
                    (filter (\<lambda>e. keyOfEntry e \<notin> set (map keyOfShop (filter (matchesQuery d ty) (shops s))))
                      (retailShops dist))
             else [])
     + mset (if \<not> truthy ty \<or> ty = Some ''Whole Seller''
             then map (\<lambda>e. LegacyObj (legacyView d WholeSeller e))
                    (filter (\<lambda>e. keyOfEntry e \<notin> set (map keyOfShop (filter (matchesQuery d ty) (shops s))))
                      (wholesaleShops dist))
             else [])"
  unfolding allShops_def Let_def mset_sortBy legacyViews_unmatched
  by (simp split del: if_split cong: if_cong)

lemma allShops_sorted:
  assumes "\<And>a b. le a b \<or> le b a" and "\<And>a b c. le a b \<Longrightarrow> le b c \<Longrightarrow> le a c"
  shows "sorted_wrt (\<lambda>x y. le (listedName x) (listedName y)) (allShops le d ty s dist)"
  unfolding allShops_def Let_def
  by (rule sorted_sortBy) (use assms in blast)+


lemma getShops_found:
  "distributors s d = Some dist \<Longrightarrow>
     getShopsByDistributor le f d ty s =
       (Json 200 (Listing (length (allShops le d ty s dist)) (allShops le d ty s dist)),
        syncDistributorShopCounts f d s)"
  by (simp add: getShopsByDistributor_def Let_def)

text \<open>
  Claim C9, as amended. For a distributor that does not exist the answer is NotFound and
  nothing changes. Otherwise the answer is a list, with its length, that holds exactly:
  the active Shop records of the distributor, of the type asked for when a type filter is
  given; and, from the legacy arrays that the filter selects (both without a filter,
  \<open>retailShops\<close> alone for \<open>Retailer\<close>, \<open>wholesaleShops\<close> alone for
  \<open>Whole Seller\<close>, none for another value), the entries whose identity key is the key
  of no returned Shop record, each as a view object with \<open>isLegacy\<close> and
  \<open>isActive\<close> true and the type of its array. The list is sorted by name for every
  comparison that is total and transitive, and the store that results is the one the
  reconciler returns for this distributor.
\<close>

theorem getShopsByDistributor_listing:
  "(distributors s d = None \<longrightarrow> getShopsByDistributor le f d ty s = (DistributorNotFound, s))
   \<and> (\<forall>dist. distributors s d = Some dist \<longrightarrow>
        (\<exists>xs. getShopsByDistributor le f d ty s =
                 (Json 200 (Listing (length xs) xs), syncDistributorShopCounts f d s)
           \<and> mset xs =
               mset (map ShopDoc (filter (matchesQuery d ty) (shops s)))
               + mset (if \<not> truthy ty \<or> ty = Some ''Retailer''
                       then map (\<lambda>e. LegacyObj (legacyView d Retailer e))
                              (filter (\<lambda>e. keyOfEntry e \<notin> set (map keyOfShop (filter (matchesQuery d ty) (shops s))))
                                (retailShops dist))
                       else [])
               + mset (if \<not> truthy ty \<or> ty = Some ''Whole Seller''
                       then map (\<lambda>e. LegacyObj (legacyView d WholeSeller e))
                              (filter (\<lambda>e. keyOfEntry e \<notin> set (map keyOfShop (filter (matchesQuery d ty) (shops s))))
                                (wholesaleShops dist))
                       else [])
           \<and> ((\<forall>a b. le a b \<or> le b a) \<longrightarrow> (\<forall>a b c. le a b \<longrightarrow> le b c \<longrightarrow> le a c) \<longrightarrow>
                 sorted_wrt (\<lambda>x y. le (listedName x) (listedName y)) xs)))"
proof (intro conjI allI impI)
  assume "distributors s d = None"
  then show "getShopsByDistributor le f d ty s = (DistributorNotFound, s)"
    by (simp add: getShopsByDistributor_def)
next
  fix dist
  assume d: "distributors s d = Some dist"
  have srt: "(\<forall>a b. le a b \<or> le b a) \<longrightarrow> (\<forall>a b c. le a b \<longrightarrow> le b c \<longrightarrow> le a c) \<longrightarrow>
                 sorted_wrt (\<lambda>x y. le (listedName x) (listedName y)) (allShops le d ty s dist)"
  proof (intro impI)
    assume tot: "\<forall>a b. le a b \<or> le b a" and tr: "\<forall>a b c. le a b \<longrightarrow> le b c \<longrightarrow> le a c"
    show "sorted_wrt (\<lambda>x y. le (listedName x) (listedName y)) (allShops le d ty s dist)"
    proof (rule allShops_sorted)
      fix a b show "le a b \<or> le b a" using tot by simp
    next
      fix a b c assume "le a b" "le b c" then show "le a c" using tr by blast
    qed
  qed
  show "\<exists>xs. getShopsByDistributor le f d ty s =
                 (Json 200 (Listing (length xs) xs), syncDistributorShopCounts f d s)
           \<and> mset xs =
               mset (map ShopDoc (filter (matchesQuery d ty) (shops s)))
               + mset (if \<not> truthy ty \<or> ty = Some ''Retailer''
                       then map (\<lambda>e. LegacyObj (legacyView d Retailer e))
                              (filter (\<lambda>e. keyOfEntry e \<notin> set (map keyOfShop (filter (matchesQuery d ty) (shops s))))
                                (retailShops dist))
                       else [])
               + mset (if \<not> truthy ty \<or> ty = Some ''Whole Seller''
                       then map (\<lambda>e. LegacyObj (legacyView d WholeSeller e))
                              (filter (\<lambda>e. keyOfEntry e \<notin> set (map keyOfShop (filter (matchesQuery d ty) (shops s))))
                                (wholesaleShops dist))
                       else [])
           \<and> ((\<forall>a b. le a b \<or> le b a) \<longrightarrow> (\<forall>a b c. le a b \<longrightarrow> le b c \<longrightarrow> le a c) \<longrightarrow>
                 sorted_wrt (\<lambda>x y. le (listedName x) (listedName y)) xs)"
    by (rule exI [of _ "allShops le d ty s dist"])
       (intro conjI getShops_found [OF d] allShops_mset srt)
qed


theorem getShopsByDistributor_listing_witness:
  "distributors filterDb 1 = Some filterDist
   \<and> (\<exists>xs. getShopsByDistributor binaryLe nofaults 1 None filterDb =
              (Json 200 (Listing (length xs) xs), syncDistributorShopCounts nofaults 1 filterDb)
         \<and> mset xs = {#ShopDoc filterShop,
                        LegacyObj \<lparr>view_id = 11, view_name = ''W'', view_ownerName = ''O'',
                          view_address = ''A'', view_type = WholeSeller,
                          view_distributorId = 1, isLegacy = True, view_isActive = True\<rparr>#}
         \<and> sorted_wrt (\<lambda>x y. binaryLe (listedName x) (listedName y)) xs)
   \<and> distributors filterDb 2 = None
   \<and> getShopsByDistributor binaryLe nofaults 2 None filterDb = (DistributorNotFound, filterDb)"
proof -
  have h: "distributors filterDb 1 = Some filterDist" by (simp add: filterDb_def)
  have n: "distributors filterDb 2 = None" by (simp add: filterDb_def)
  have tot: "\<forall>a b. binaryLe a b \<or> binaryLe b a"
    by (auto simp: binaryLe_def)
  have tr: "\<forall>a b c. binaryLe a b \<longrightarrow> binaryLe b c \<longrightarrow> binaryLe a c"
    by (auto simp: binaryLe_def)
  note th1 = getShopsByDistributor_listing
    [where s = filterDb and d = 1 and le = binaryLe and f = nofaults and ty = None]
  note th2 = getShopsByDistributor_listing
    [where s = filterDb and d = 2 and le = binaryLe and f = nofaults and ty = None]
  from th1 h obtain xs where
    a: "getShopsByDistributor binaryLe nofaults 1 None filterDb =
              (Json 200 (Listing (length xs) xs), syncDistributorShopCounts nofaults 1 filterDb)"
    and b: "mset xs =
               mset (map ShopDoc (filter (matchesQuery 1 None) (shops filterDb)))
               + mset (if \<not> truthy None \<or> None = Some ''Retailer''
                       then map (\<lambda>e. LegacyObj (legacyView 1 Retailer e))
                              (filter (\<lambda>e. keyOfEntry e \<notin> set (map keyOfShop (filter (matchesQuery 1 None) (shops filterDb))))
                                (retailShops filterDist))
                       else [])
               + mset (if \<not> truthy None \<or> None = Some ''Whole Seller''
                       then map (\<lambda>e. LegacyObj (legacyView 1 WholeSeller e))
                              (filter (\<lambda>e. keyOfEntry e \<notin> set (map keyOfShop (filter (matchesQuery 1 None) (shops filterDb))))
                                (wholesaleShops filterDist))
                       else [])"
    and c: "(\<forall>a b. binaryLe a b \<or> binaryLe b a) \<longrightarrow>
            (\<forall>a b c. binaryLe a b \<longrightarrow> binaryLe b c \<longrightarrow> binaryLe a c) \<longrightarrow>
                 sorted_wrt (\<lambda>x y. binaryLe (listedName x) (listedName y)) xs"
    by blast
  have b': "mset xs = {#ShopDoc filterShop,
                        LegacyObj \<lparr>view_id = 11, view_name = ''W'', view_ownerName = ''O'',
                          view_address = ''A'', view_type = WholeSeller,
                          view_distributorId = 1, isLegacy = True, view_isActive = True\<rparr>#}"
    unfolding b
    by (simp add: filterDb_def filterDist_def filterShop_def matchesQuery_def truthy_def
        legacyView_def keyOfEntry_def keyOfShop_def shopKey_def toLowerCase_def lowerChar_def)
  from c tot tr have c': "sorted_wrt (\<lambda>x y. binaryLe (listedName x) (listedName y)) xs"
    by blast
  from th2 n have e: "getShopsByDistributor binaryLe nofaults 2 None filterDb
      = (DistributorNotFound, filterDb)"
    by blast
  from a b' c' have "\<exists>xs. getShopsByDistributor binaryLe nofaults 1 None filterDb =
              (Json 200 (Listing (length xs) xs), syncDistributorShopCounts nofaults 1 filterDb)
         \<and> mset xs = {#ShopDoc filterShop,
                        LegacyObj \<lparr>view_id = 11, view_name = ''W'', view_ownerName = ''O'',
                          view_address = ''A'', view_type = WholeSeller,
                          view_distributorId = 1, isLegacy = True, view_isActive = True\<rparr>#}
         \<and> sorted_wrt (\<lambda>x y. binaryLe (listedName x) (listedName y)) xs"
    by (intro exI conjI)
  with h n e show ?thesis by (intro conjI)
qed

text \<open>
  The claim as stated fails: with the filter \<open>Retailer\<close> the legacy wholesale entry,
  whose key is the key of no returned Shop record, is not in the listing.
\<close>

theorem listing_filter_omits_other_array_counterexample:
  "distributors filterDb 1 = Some filterDist
   \<and> filter (matchesQuery 1 (Some ''Retailer'')) (shops filterDb) = [filterShop]
   \<and> map keyOfEntry (wholesaleShops filterDist) = [''w-o-a'']
   \<and> keyOfShop filterShop = ''r-p-q''
   \<and> fst (getShopsByDistributor binaryLe nofaults 1 (Some ''Retailer'') filterDb)
       = Json 200 (Listing 1 [ShopDoc filterShop])"
  by code_simp


lemma matchesQuery_nofilter:
  "\<not> truthy ty \<Longrightarrow> filter (matchesQuery d ty) (shops s) = shopsFromCollection s d"
  by (auto simp: truthy_def matchesQuery_def shopsFromCollection_def split: option.splits
      intro!: filter_cong)

lemma legacyView_inject:
  "(legacyView d t e = legacyView d t' e') = (t = t' \<and> e = e')"
  by (cases e, cases e') (auto simp: legacyView_def)

lemma allShops_set_nofilter:
  assumes "\<not> truthy ty"
  shows "set (allShops le d ty s dist) =
     ShopDoc ` set (shopsFromCollection s d)
     \<union> (\<lambda>e. LegacyObj (legacyView d Retailer e))
         ` {e \<in> set (retailShops dist).
              keyOfEntry e \<notin> set (map keyOfShop (shopsFromCollection s d))}
     \<union> (\<lambda>e. LegacyObj (legacyView d WholeSeller e))
         ` {e \<in> set (wholesaleShops dist).
              keyOfEntry e \<notin> set (map keyOfShop (shopsFromCollection s d))}"
proof -
  have "set (allShops le d ty s dist) = set_mset (mset (allShops le d ty s dist))"
    by simp
  also have "\<dots> = ShopDoc ` set (shopsFromCollection s d)
     \<union> (\<lambda>e. LegacyObj (legacyView d Retailer e))
         ` {e \<in> set (retailShops dist).
              keyOfEntry e \<notin> set (map keyOfShop (shopsFromCollection s d))}
     \<union> (\<lambda>e. LegacyObj (legacyView d WholeSeller e))
         ` {e \<in> set (wholesaleShops dist).
              keyOfEntry e \<notin> set (map keyOfShop (shopsFromCollection s d))}"
    unfolding allShops_mset using assms
    by (simp add: matchesQuery_nofilter)
  finally show ?thesis .
qed

text \<open>
  Claim C10. Without a type filter a legacy entry of either array is listed exactly when
  no active Shop record of the distributor, of whatever type, has its identity key. The
  reconciler compares a legacy entry with the shops of its own type only: in the example
  the wholesale entry has the key of a Retailer shop, the listing has one element, and the
  two counts add up to two.
\<close>

theorem listing_dedup_ignores_type:
  "(\<forall>dist n xs s'.
       distributors s d = Some dist \<longrightarrow> \<not> truthy ty \<longrightarrow>
       getShopsByDistributor le f d ty s = (Json 200 (Listing n xs), s') \<longrightarrow>
         (\<forall>e \<in> set (retailShops dist).
             (LegacyObj (legacyView d Retailer e) \<in> set xs)
               = (keyOfEntry e \<notin> set (map keyOfShop (shopsFromCollection s d))))
       \<and> (\<forall>e \<in> set (wholesaleShops dist).
             (LegacyObj (legacyView d WholeSeller e) \<in> set xs)
               = (keyOfEntry e \<notin> set (map keyOfShop (shopsFromCollection s d)))))
   \<and> map shopType (shopsFromCollection crossTypeDb 1) = [Retailer]
   \<and> map keyOfShop (shopsFromCollection crossTypeDb 1) = map keyOfEntry (wholesaleShops crossTypeDist)
   \<and> fst (getShopsByDistributor binaryLe nofaults 1 None crossTypeDb)
       = Json 200 (Listing 1 [ShopDoc caseShop])
   \<and> map_option (\<lambda>dist. (retailShopCount dist, wholesaleShopCount dist))
         (distributors (snd (getShopsByDistributor binaryLe nofaults 1 None crossTypeDb)) 1)
       = Some (1, 1)"
proof (intro conjI allI impI)
  fix dist n xs s'
  assume d: "distributors s d = Some dist" and ty: "\<not> truthy ty"
    and g: "getShopsByDistributor le f d ty s = (Json 200 (Listing n xs), s')"
  from g have xs: "xs = allShops le d ty s dist"
    by (simp add: getShops_found [OF d])
  show "\<forall>e \<in> set (retailShops dist).
             (LegacyObj (legacyView d Retailer e) \<in> set xs)
               = (keyOfEntry e \<notin> set (map keyOfShop (shopsFromCollection s d)))"
    unfolding xs allShops_set_nofilter [OF ty]
    by (auto simp: legacyView_inject)
  show "\<forall>e \<in> set (wholesaleShops dist).
             (LegacyObj (legacyView d WholeSeller e) \<in> set xs)
               = (keyOfEntry e \<notin> set (map keyOfShop (shopsFromCollection s d)))"
    unfolding xs allShops_set_nofilter [OF ty]
    by (auto simp: legacyView_inject)
next
  show "map shopType (shopsFromCollection crossTypeDb 1) = [Retailer]" by code_simp
  show "map keyOfShop (shopsFromCollection crossTypeDb 1)
          = map keyOfEntry (wholesaleShops crossTypeDist)" by code_simp
  show "fst (getShopsByDistributor binaryLe nofaults 1 None crossTypeDb)
       = Json 200 (Listing 1 [ShopDoc caseShop])" by code_simp
  show "map_option (\<lambda>dist. (retailShopCount dist, wholesaleShopCount dist))
         (distributors (snd (getShopsByDistributor binaryLe nofaults 1 None crossTypeDb)) 1)
       = Some (1, 1)" by code_simp
qed

theorem listing_dedup_ignores_type_witness:
  "distributors crossTypeDb 1 = Some crossTypeDist
   \<and> \<not> truthy None
   \<and> getShopsByDistributor binaryLe nofaults 1 None crossTypeDb
       = (Json 200 (Listing 1 [ShopDoc caseShop]),
          snd (getShopsByDistributor binaryLe nofaults 1 None crossTypeDb))
   \<and> \<lparr>entry_id = 12, shopName = ''A'', entryOwnerName = ''B'', entryAddress = ''C''\<rparr>
        \<in> set (wholesaleShops crossTypeDist)
   \<and> (LegacyObj (legacyView 1 WholeSeller
          \<lparr>entry_id = 12, shopName = ''A'', entryOwnerName = ''B'', entryAddress = ''C''\<rparr>)
        \<in> set [ShopDoc caseShop])
      = (keyOfEntry \<lparr>entry_id = 12, shopName = ''A'', entryOwnerName = ''B'', entryAddress = ''C''\<rparr>
          \<notin> set (map keyOfShop (shopsFromCollection crossTypeDb 1)))"
proof -
  have h1: "distributors crossTypeDb 1 = Some crossTypeDist" by (simp add: crossTypeDb_def)
  have h2: "\<not> truthy None" by (simp add: truthy_def)
  have h3: "getShopsByDistributor binaryLe nofaults 1 None crossTypeDb
       = (Json 200 (Listing 1 [ShopDoc caseShop]),
          snd (getShopsByDistributor binaryLe nofaults 1 None crossTypeDb))"
    by (rule prod_eqI) (code_simp, simp)
  have h4: "\<lparr>entry_id = 12, shopName = ''A'', entryOwnerName = ''B'', entryAddress = ''C''\<rparr>
        \<in> set (wholesaleShops crossTypeDist)"
    by (simp add: crossTypeDist_def)
  note th = listing_dedup_ignores_type
    [where s = crossTypeDb and d = 1 and ty = None and le = binaryLe and f = nofaults]
  from th h1 h2 h3 have "\<forall>e \<in> set (wholesaleShops crossTypeDist).
             (LegacyObj (legacyView 1 WholeSeller e) \<in> set [ShopDoc caseShop])
               = (keyOfEntry e \<notin> set (map keyOfShop (shopsFromCollection crossTypeDb 1)))"
    by blast
  with h4 have "(LegacyObj (legacyView 1 WholeSeller
          \<lparr>entry_id = 12, shopName = ''A'', entryOwnerName = ''B'', entryAddress = ''C''\<rparr>)
        \<in> set [ShopDoc caseShop])
      = (keyOfEntry \<lparr>entry_id = 12, shopName = ''A'', entryOwnerName = ''B'', entryAddress = ''C''\<rparr>
          \<notin> set (map keyOfShop (shopsFromCollection crossTypeDb 1)))"
    by (rule bspec [rotated])
  with h1 h2 h3 h4 show ?thesis by (intro conjI)
qed

section \<open>Properties of deleteShop\<close>

lemma sync_twice:
  "syncDistributorShopCounts nofaults d (syncDistributorShopCounts nofaults d s)
     = syncDistributorShopCounts nofaults d s"
proof (cases "distributors s d")
  case None
  then show ?thesis by (simp add: sync_missing)
next
  case (Some dist)
  let ?s' = "syncDistributorShopCounts nofaults d s"
  have "distributors ?s' d = Some (reconciled s d dist)"
    by (rule sync_reconciles [OF Some])
  moreover have "\<not> countsDiffer ?s' d (reconciled s d dist)"
    by (simp add: reconciled_same)
  ultimately show ?thesis by (rule sync_unchanged)
qed

lemma updateFirst_distinct:
  assumes "distinct (map shop_id xs)"
  shows "updateFirst (\<lambda>x. shop_id x = i) g xs = map (\<lambda>x. if shop_id x = i then g x else x) xs"
  using assms
proof (induction xs)
  case Nil
  then show ?case by simp
next
  case (Cons y ys)
  show ?case
  proof (cases "shop_id y = i")
    case True
    with Cons.prems have "\<forall>x \<in> set ys. shop_id x \<noteq> i" by (auto simp: image_iff)
    then have "map (\<lambda>x. if shop_id x = i then g x else x) ys = ys"
      by (simp add: map_idI)
    with True show ?thesis by simp
  next
    case False
    with Cons show ?thesis by simp
  qed
qed

lemma find_map_update:
  assumes "find (\<lambda>x. shop_id x = i) xs = Some sh" and "\<And>x. shop_id (g x) = shop_id x"
  shows "find (\<lambda>x. shop_id x = i) (map (\<lambda>x. if shop_id x = i then g x else x) xs) = Some (g sh)"
  using assms(1)
  by (induction xs) (auto simp: assms(2) split: if_splits)

lemma deactivated_twice: "deactivated i (deactivated i xs) = deactivated i xs"
  by (induction xs) (auto simp: deactivated_def)

lemma allShops_ShopDoc:
  "(ShopDoc y \<in> set (allShops le d ty s dist)) = (y \<in> set (shops s) \<and> matchesQuery d ty y)"
proof -
  have "(ShopDoc y \<in> set (allShops le d ty s dist))
          = (ShopDoc y \<in># mset (allShops le d ty s dist))"
    by simp
  also have "\<dots> = (y \<in> set (shops s) \<and> matchesQuery d ty y)"
    unfolding allShops_mset by auto
  finally show ?thesis .
qed

lemma deleteShop_unfold:
  assumes "Shop_findById i s = Some sh" and "distinct (map shop_id (shops s))"
  shows "deleteShop f i s = deleteShopLegacy f sh (s\<lparr>shops := deactivated i (shops s)\<rparr>)"
  using assms by (simp add: deleteShop_def updateFirst_distinct deactivated_def)

lemma deleteShopLegacy_nofaults:
  "deleteShopLegacy nofaults sh s =
     (Json 200 EmptyData,
      case distributors s (distributorId sh) of
        None \<Rightarrow> s
      | Some dist \<Rightarrow>
          syncDistributorShopCounts nofaults (distributorId sh)
            (if list_ex (sameDetails (name sh) (ownerName sh) (address sh))
                  (getField (fieldOfType (typeName (shopType sh))) dist)
             then pullEntries (distributorId sh) (fieldOfType (typeName (shopType sh)))
                    (name sh) (ownerName sh) (address sh) s
             else s))"
  by (simp add: deleteShopLegacy_def nofaults_def Let_def split: option.splits)

lemma filter_not_sameDetails_id:
  "\<not> list_ex (sameDetails n ow a) es \<Longrightarrow> filter (\<lambda>e. \<not> sameDetails n ow a e) es = es"
  by (induction es) auto

lemma setField_getField [simp]: "setField fld (getField fld dist) dist = dist"
  by (simp add: setField_def getField_def split: legacy_field.splits)

lemma pulled_distributor:
  assumes "distributors s d = Some dist"
  shows "distributors
           (if list_ex (sameDetails n ow a) (getField fld dist)
            then pullEntries d fld n ow a s else s) d
         = Some (setField fld (filter (\<lambda>e. \<not> sameDetails n ow a e) (getField fld dist)) dist)"
  using assms by (simp add: distributors_pullEntries filter_not_sameDetails_id)

lemma filter_skip_inactive:
  assumes "\<forall>x \<in> set xs. shop_id x = i \<longrightarrow> \<not> isActive x"
  shows "filter (\<lambda>x. P x \<and> isActive x) (filter (\<lambda>x. shop_id x \<noteq> i) xs)
           = filter (\<lambda>x. P x \<and> isActive x) xs"
    and "filter (\<lambda>x. P x \<and> Q x \<and> isActive x) (filter (\<lambda>x. shop_id x \<noteq> i) xs)
           = filter (\<lambda>x. P x \<and> Q x \<and> isActive x) xs"
  using assms by (induction xs) auto

lemma totals_without_inactive:
  assumes "\<forall>x \<in> set (shops s). shop_id x = i \<longrightarrow> \<not> isActive x"
  shows "totalRetailCount s d dist
           = totalRetailCount (s\<lparr>shops := filter (\<lambda>x. shop_id x \<noteq> i) (shops s)\<rparr>) d dist"
    and "totalWholesaleCount s d dist
           = totalWholesaleCount (s\<lparr>shops := filter (\<lambda>x. shop_id x \<noteq> i) (shops s)\<rparr>) d dist"
proof -
  let ?xs = "filter (\<lambda>x. shop_id x \<noteq> i) (shops s)"
  have a: "shopsFromCollection (s\<lparr>shops := ?xs\<rparr>) d = shopsFromCollection s d"
    by (simp add: shopsFromCollection_def filter_skip_inactive(1) [OF assms] del: filter_filter)
  have b: "countDocuments (s\<lparr>shops := ?xs\<rparr>) d t = countDocuments s d t" for t
    by (simp add: countDocuments_def filter_skip_inactive(2) [OF assms] del: filter_filter)
  show "totalRetailCount s d dist = totalRetailCount (s\<lparr>shops := ?xs\<rparr>) d dist"
    unfolding totalRetailCount_def a b ..
  show "totalWholesaleCount s d dist = totalWholesaleCount (s\<lparr>shops := ?xs\<rparr>) d dist"
    unfolding totalWholesaleCount_def a b ..
qed

lemma deactivated_Cons:
  "deactivated i (x # xs) = (if shop_id x = i then x\<lparr>isActive := False\<rparr> else x) # deactivated i xs"
  by (simp add: deactivated_def)

lemma deactivated_Nil: "deactivated i [] = []"
  by (simp add: deactivated_def)

lemma deactivated_inactive_mem:
  "x \<in> set (deactivated i xs) \<Longrightarrow> shop_id x = i \<Longrightarrow> \<not> isActive x"
proof (induction xs)
  case Nil
  then show ?case by (simp add: deactivated_Nil)
next
  case (Cons y ys)
  show ?case
  proof (cases "x \<in> set (deactivated i ys)")
    case True
    with Cons show ?thesis by blast
  next
    case False
    with Cons.prems(1) have x: "x = (if shop_id y = i then y\<lparr>isActive := False\<rparr> else y)"
      by (simp add: deactivated_Cons)
    show ?thesis
    proof (cases "shop_id y = i")
      case True
      with x show ?thesis by simp
    next
      case False
      with x Cons.prems(2) show ?thesis by simp
    qed
  qed
qed

lemma deactivated_inactive:
  "\<forall>x \<in> set (deactivated i xs). shop_id x = i \<longrightarrow> \<not> isActive x"
  using deactivated_inactive_mem by blast


lemma deactivated_find:
  "find (\<lambda>x. shop_id x = i) xs = Some sh
     \<Longrightarrow> find (\<lambda>x. shop_id x = i) (deactivated i xs) = Some (sh\<lparr>isActive := False\<rparr>)"
  unfolding deactivated_def by (rule find_map_update) simp_all

lemma deactivated_ids [simp]: "map shop_id (deactivated i xs) = map shop_id xs"
  by (induction xs) (simp_all add: deactivated_def)

text \<open>The store after deleteShop, for a shop that exists in a store with unique ids.\<close>

lemma deleteShop_store:
  assumes h: "Shop_findById i s = Some sh" and dst: "distinct (map shop_id (shops s))"
  shows "fst (deleteShop nofaults i s) = Json 200 EmptyData"
    and "shops (snd (deleteShop nofaults i s)) = deactivated i (shops s)"
    and "distributors s (distributorId sh) = None \<Longrightarrow>
           snd (deleteShop nofaults i s) = s\<lparr>shops := deactivated i (shops s)\<rparr>"
    and "distributors s (distributorId sh) = Some dist \<Longrightarrow>
           distributors (snd (deleteShop nofaults i s)) (distributorId sh) =
             Some (reconciled (snd (deleteShop nofaults i s)) (distributorId sh)
               (setField (fieldOfType (typeName (shopType sh)))
                 (filter (\<lambda>e. \<not> sameDetails (name sh) (ownerName sh) (address sh) e)
                    (getField (fieldOfType (typeName (shopType sh))) dist)) dist))"
    and "distributors s (distributorId sh) = Some dist \<Longrightarrow>
           syncDistributorShopCounts nofaults (distributorId sh) (snd (deleteShop nofaults i s))
             = snd (deleteShop nofaults i s)"
proof -
  let ?s1 = "s\<lparr>shops := deactivated i (shops s)\<rparr>"
  let ?d = "distributorId sh"
  let ?fld = "fieldOfType (typeName (shopType sh))"
  have e: "deleteShop nofaults i s = deleteShopLegacy nofaults sh ?s1"
    by (rule deleteShop_unfold [OF h dst])
  show "fst (deleteShop nofaults i s) = Json 200 EmptyData"
    unfolding e deleteShopLegacy_nofaults by simp
  show "shops (snd (deleteShop nofaults i s)) = deactivated i (shops s)"
    unfolding e deleteShopLegacy_nofaults by (simp split: option.splits)
  show "snd (deleteShop nofaults i s) = ?s1" if "distributors s ?d = None"
    unfolding e deleteShopLegacy_nofaults using that by simp
  {
    assume d: "distributors s ?d = Some dist"
    let ?s2 = "if list_ex (sameDetails (name sh) (ownerName sh) (address sh)) (getField ?fld dist)
               then pullEntries ?d ?fld (name sh) (ownerName sh) (address sh) ?s1 else ?s1"
    let ?dist2 = "setField ?fld
                 (filter (\<lambda>e. \<not> sameDetails (name sh) (ownerName sh) (address sh) e)
                    (getField ?fld dist)) dist"
    have s': "snd (deleteShop nofaults i s) = syncDistributorShopCounts nofaults ?d ?s2"
      unfolding e deleteShopLegacy_nofaults using d by simp
    have d1: "distributors ?s1 ?d = Some dist" using d by simp
    have d2: "distributors ?s2 ?d = Some ?dist2"
      by (rule pulled_distributor [OF d1])
    have "distributors (snd (deleteShop nofaults i s)) ?d = Some (reconciled ?s2 ?d ?dist2)"
      unfolding s' by (rule sync_reconciles [OF d2])
    moreover have "reconciled ?s2 ?d ?dist2 = reconciled (snd (deleteShop nofaults i s)) ?d ?dist2"
      unfolding s'
      by (simp add: reconciled_def totalRetailCount_def totalWholesaleCount_def
          countDocuments_def shopsFromCollection_def)
    ultimately show "distributors (snd (deleteShop nofaults i s)) ?d =
             Some (reconciled (snd (deleteShop nofaults i s)) ?d ?dist2)"
      by simp
    show "syncDistributorShopCounts nofaults ?d (snd (deleteShop nofaults i s))
             = snd (deleteShop nofaults i s)"
      unfolding s' by (rule sync_twice)
  }
qed


lemma no_match_after_filter:
  "\<not> list_ex (sameDetails n ow a) (filter (\<lambda>e. \<not> sameDetails n ow a e) es)"
  by (simp add: list_ex_iff)

lemma update_shops_same: "shops s = xs \<Longrightarrow> s\<lparr>shops := xs\<rparr> = s"
  by simp

text \<open>A second deleteShop of the same shop changes nothing.\<close>

lemma deleteShop_again:
  assumes h: "Shop_findById i s = Some sh" and dst: "distinct (map shop_id (shops s))"
  shows "deleteShop nofaults i (snd (deleteShop nofaults i s))
           = (Json 200 EmptyData, snd (deleteShop nofaults i s))"
proof -
  let ?s' = "snd (deleteShop nofaults i s)"
  let ?sh' = "sh\<lparr>isActive := False\<rparr>"
  let ?d = "distributorId sh"
  let ?fld = "fieldOfType (typeName (shopType sh))"
  have sh': "shops ?s' = deactivated i (shops s)"
    by (rule deleteShop_store(2) [OF h dst])
  have h': "Shop_findById i ?s' = Some ?sh'"
    using h unfolding Shop_findById_def sh' by (rule deactivated_find)
  have dst': "distinct (map shop_id (shops ?s'))"
    using dst by (simp add: sh')
  have same: "?s'\<lparr>shops := deactivated i (shops ?s')\<rparr> = ?s'"
    by (rule update_shops_same) (simp add: sh' deactivated_twice)
  have e: "deleteShop nofaults i ?s' = deleteShopLegacy nofaults ?sh' ?s'"
    unfolding deleteShop_unfold [OF h' dst'] same ..
  show ?thesis
  proof (cases "distributors s ?d")
    case None
    have "?s' = s\<lparr>shops := deactivated i (shops s)\<rparr>"
      by (rule deleteShop_store(3) [OF h dst None])
    then have "distributors ?s' ?d = None"
      using None by simp
    then show ?thesis
      unfolding e deleteShopLegacy_nofaults by simp
  next
    case (Some dist)
    let ?dist2 = "setField ?fld
                 (filter (\<lambda>e. \<not> sameDetails (name sh) (ownerName sh) (address sh) e)
                    (getField ?fld dist)) dist"
    have d': "distributors ?s' ?d = Some (reconciled ?s' ?d ?dist2)"
      by (rule deleteShop_store(4) [OF h dst Some])
    have nm: "\<not> list_ex (sameDetails (name sh) (ownerName sh) (address sh))
                 (getField ?fld (reconciled ?s' ?d ?dist2))"
      by (simp add: getField_setField no_match_after_filter)
    have stable: "syncDistributorShopCounts nofaults ?d ?s' = ?s'"
      by (rule deleteShop_store(5) [OF h dst Some])
    show ?thesis
      unfolding e deleteShopLegacy_nofaults using d' nm stable by simp
  qed
qed


lemma reconciled_arrays:
  "retailShops (reconciled s d dist) = retailShops dist"
  "wholesaleShops (reconciled s d dist) = wholesaleShops dist"
  by (simp_all add: reconciled_def)

lemma setField_arrays:
  "retailShops (setField fld es dist) = (if fld = RetailShopsField then es else retailShops dist)"
  "wholesaleShops (setField fld es dist)
     = (if fld = WholesaleShopsField then es else wholesaleShops dist)"
  by (simp_all add: setField_def split: legacy_field.splits)

lemma getField_cases:
  "getField fld dist = (if fld = RetailShopsField then retailShops dist else wholesaleShops dist)"
  by (simp add: getField_def split: legacy_field.splits)

lemma deleteShop_arrays:
  assumes h: "Shop_findById i s = Some sh" and dst: "distinct (map shop_id (shops s))"
    and d: "distributors s (distributorId sh) = Some dist"
  shows "\<exists>dist'. distributors (snd (deleteShop nofaults i s)) (distributorId sh) = Some dist'
           \<and> retailShops dist' =
               (if shopType sh = Retailer
                then filter (\<lambda>e. \<not> (shopName e = name sh \<and> entryOwnerName e = ownerName sh
                                    \<and> entryAddress e = address sh)) (retailShops dist)
                else retailShops dist)
           \<and> wholesaleShops dist' =
               (if shopType sh = WholeSeller
                then filter (\<lambda>e. \<not> (shopName e = name sh \<and> entryOwnerName e = ownerName sh
                                    \<and> entryAddress e = address sh)) (wholesaleShops dist)
                else wholesaleShops dist)"
proof -
  let ?s' = "snd (deleteShop nofaults i s)"
  let ?fld = "fieldOfType (typeName (shopType sh))"
  let ?dist2 = "setField ?fld
                 (filter (\<lambda>e. \<not> sameDetails (name sh) (ownerName sh) (address sh) e)
                    (getField ?fld dist)) dist"
  have d': "distributors ?s' (distributorId sh) = Some (reconciled ?s' (distributorId sh) ?dist2)"
    by (rule deleteShop_store(4) [OF h dst d])
  have r: "retailShops (reconciled ?s' (distributorId sh) ?dist2) =
               (if shopType sh = Retailer
                then filter (\<lambda>e. \<not> (shopName e = name sh \<and> entryOwnerName e = ownerName sh
                                    \<and> entryAddress e = address sh)) (retailShops dist)
                else retailShops dist)"
    by (cases "shopType sh")
      (simp_all add: reconciled_arrays setField_arrays getField_cases fieldOfType_def typeName_def
        sameDetails_def)
  have w: "wholesaleShops (reconciled ?s' (distributorId sh) ?dist2) =
               (if shopType sh = WholeSeller
                then filter (\<lambda>e. \<not> (shopName e = name sh \<and> entryOwnerName e = ownerName sh
                                    \<and> entryAddress e = address sh)) (wholesaleShops dist)
                else wholesaleShops dist)"
    by (cases "shopType sh")
      (simp_all add: reconciled_arrays setField_arrays getField_cases fieldOfType_def typeName_def
        sameDetails_def)
  from d' r w show ?thesis by (intro exI conjI)
qed

lemma matchesQuery_skip_inactive:
  assumes "\<forall>x \<in> set xs. shop_id x = i \<longrightarrow> \<not> isActive x"
  shows "filter (matchesQuery d ty) (filter (\<lambda>x. shop_id x \<noteq> i) xs) = filter (matchesQuery d ty) xs"
  using assms by (induction xs) (auto simp: matchesQuery_def)

lemma allShops_without_inactive:
  assumes "\<forall>x \<in> set (shops s). shop_id x = i \<longrightarrow> \<not> isActive x"
  shows "allShops le d ty (s\<lparr>shops := filter (\<lambda>x. shop_id x \<noteq> i) (shops s)\<rparr>) dist
           = allShops le d ty s dist"
  by (simp add: allShops_def matchesQuery_skip_inactive [OF assms] del: filter_filter)

lemma getShops_without_inactive:
  assumes "\<forall>x \<in> set (shops s). shop_id x = i \<longrightarrow> \<not> isActive x"
  shows "fst (getShopsByDistributor le f d ty s)
           = fst (getShopsByDistributor le f d ty
                    (s\<lparr>shops := filter (\<lambda>x. shop_id x \<noteq> i) (shops s)\<rparr>))"
  by (simp add: getShopsByDistributor_def Let_def allShops_without_inactive [OF assms]
      split: option.splits)

text \<open>
  Claim C8, as amended. For a shop that exists, in a store whose shop ids are unique,
  after a deleteShop in which no store call rejects: the answer is success; the record is
  still there, with \<open>isActive\<close> false and every other field as before, and no other
  record has changed; no listing of any distributor contains a Shop record with this id,
  and every listing and both totals of the reconciler are those of the store without the
  record; when the distributor of the shop exists, \<open>retailShops\<close> for a Retailer shop
  and \<open>wholesaleShops\<close> for a Whole Seller shop has lost exactly the entries whose
  name, owner name and address are equal to those of the shop, and the other array is as
  before; and a second deleteShop answers with success and leaves the store as it is.
  An entry with the identity key of the shop whose three fields are not equal to those
  of the shop, letter for letter, is kept: in the store \<open>twinDb\<close>, after deleteShop of
  the shop A/B/C, the entry a/b/c is the only entry of \<open>retailShops\<close>, the listing
  consists of it, and the stored count is 1.
\<close>

theorem deleteShop_soft_delete:
  assumes h: "Shop_findById i s = Some sh" and dst: "distinct (map shop_id (shops s))"
  shows "fst (deleteShop nofaults i s) = Json 200 EmptyData
   \<and> Shop_findById i (snd (deleteShop nofaults i s)) = Some (sh\<lparr>isActive := False\<rparr>)
   \<and> shops (snd (deleteShop nofaults i s))
        = map (\<lambda>x. if shop_id x = i then x\<lparr>isActive := False\<rparr> else x) (shops s)
   \<and> (\<forall>le f d ty n xs s''.
          getShopsByDistributor le f d ty (snd (deleteShop nofaults i s))
            = (Json 200 (Listing n xs), s'')
          \<longrightarrow> (\<forall>y. ShopDoc y \<in> set xs \<longrightarrow> shop_id y \<noteq> i))
   \<and> (\<forall>d dist.
          totalRetailCount (snd (deleteShop nofaults i s)) d dist
            = totalRetailCount
                ((snd (deleteShop nofaults i s))
                   \<lparr>shops := filter (\<lambda>x. shop_id x \<noteq> i) (shops (snd (deleteShop nofaults i s)))\<rparr>)
                d dist
        \<and> totalWholesaleCount (snd (deleteShop nofaults i s)) d dist
            = totalWholesaleCount
                ((snd (deleteShop nofaults i s))
                   \<lparr>shops := filter (\<lambda>x. shop_id x \<noteq> i) (shops (snd (deleteShop nofaults i s)))\<rparr>)
                d dist)
   \<and> (\<forall>le f d ty.
          fst (getShopsByDistributor le f d ty (snd (deleteShop nofaults i s)))
            = fst (getShopsByDistributor le f d ty
                ((snd (deleteShop nofaults i s))
                   \<lparr>shops := filter (\<lambda>x. shop_id x \<noteq> i) (shops (snd (deleteShop nofaults i s)))\<rparr>)))
   \<and> (\<forall>dist. distributors s (distributorId sh) = Some dist \<longrightarrow>
          (\<exists>dist'. distributors (snd (deleteShop nofaults i s)) (distributorId sh) = Some dist'
             \<and> retailShops dist' =
                 (if shopType sh = Retailer
                  then filter (\<lambda>e. \<not> (shopName e = name sh \<and> entryOwnerName e = ownerName sh
                                      \<and> entryAddress e = address sh)) (retailShops dist)
                  else retailShops dist)
             \<and> wholesaleShops dist' =
                 (if shopType sh = WholeSeller
                  then filter (\<lambda>e. \<not> (shopName e = name sh \<and> entryOwnerName e = ownerName sh
                                      \<and> entryAddress e = address sh)) (wholesaleShops dist)
                  else wholesaleShops dist)))
   \<and> (map_option (\<lambda>dist. map keyOfEntry (retailShops dist))
            (distributors (snd (deleteShop nofaults 30 twinDb)) 1)
          = Some [keyOfShop caseShop]
        \<and> fst (getShopsByDistributor binaryLe nofaults 1 None (snd (deleteShop nofaults 30 twinDb)))
          = Json 200 (Listing 1
              [LegacyObj \<lparr>view_id = 10, view_name = ''a'', view_ownerName = ''b'',
                 view_address = ''c'', view_type = Retailer, view_distributorId = 1,
                 isLegacy = True, view_isActive = True\<rparr>])
        \<and> map_option retailShopCount (distributors (snd (deleteShop nofaults 30 twinDb)) 1) = Some 1)
   \<and> deleteShop nofaults i (snd (deleteShop nofaults i s))
        = (Json 200 EmptyData, snd (deleteShop nofaults i s))"
proof (intro conjI allI impI)
  let ?s' = "snd (deleteShop nofaults i s)"
  have sh': "shops ?s' = deactivated i (shops s)"
    by (rule deleteShop_store(2) [OF h dst])
  show "fst (deleteShop nofaults i s) = Json 200 EmptyData"
    by (rule deleteShop_store(1) [OF h dst])
  show "Shop_findById i ?s' = Some (sh\<lparr>isActive := False\<rparr>)"
    using h unfolding Shop_findById_def sh' by (rule deactivated_find)
  show "shops ?s' = map (\<lambda>x. if shop_id x = i then x\<lparr>isActive := False\<rparr> else x) (shops s)"
    unfolding sh' deactivated_def ..
  show "deleteShop nofaults i ?s' = (Json 200 EmptyData, ?s')"
    by (rule deleteShop_again [OF h dst])
  have inact: "\<forall>x \<in> set (shops ?s'). shop_id x = i \<longrightarrow> \<not> isActive x"
    unfolding sh' by (rule deactivated_inactive)
  {
    fix d dist
    show "totalRetailCount ?s' d dist
            = totalRetailCount (?s'\<lparr>shops := filter (\<lambda>x. shop_id x \<noteq> i) (shops ?s')\<rparr>) d dist"
      by (rule totals_without_inactive(1) [OF inact])
    show "totalWholesaleCount ?s' d dist
            = totalWholesaleCount (?s'\<lparr>shops := filter (\<lambda>x. shop_id x \<noteq> i) (shops ?s')\<rparr>) d dist"
      by (rule totals_without_inactive(2) [OF inact])
  }
  {
    fix le f d ty n xs s'' y
    assume g: "getShopsByDistributor le f d ty ?s' = (Json 200 (Listing n xs), s'')"
      and y: "ShopDoc y \<in> set xs"
    show "shop_id y \<noteq> i"
    proof (cases "distributors ?s' d")
      case None
      with g show ?thesis
        by (simp add: getShopsByDistributor_def DistributorNotFound_def)
    next
      case (Some dist)
      from g have "xs = allShops le d ty ?s' dist"
        by (simp add: getShops_found [OF Some])
      with y have "y \<in> set (shops ?s')" and "matchesQuery d ty y"
        by (simp_all add: allShops_ShopDoc)
      then have "y \<in> set (shops ?s')" and "isActive y"
        by (simp_all add: matchesQuery_def)
      with inact show ?thesis by blast
    qed
  }
  {
    fix dist
    assume d: "distributors s (distributorId sh) = Some dist"
    show "\<exists>dist'. distributors ?s' (distributorId sh) = Some dist'
             \<and> retailShops dist' =
                 (if shopType sh = Retailer
                  then filter (\<lambda>e. \<not> (shopName e = name sh \<and> entryOwnerName e = ownerName sh
                                      \<and> entryAddress e = address sh)) (retailShops dist)
                  else retailShops dist)
             \<and> wholesaleShops dist' =
                 (if shopType sh = WholeSeller
                  then filter (\<lambda>e. \<not> (shopName e = name sh \<and> entryOwnerName e = ownerName sh
                                      \<and> entryAddress e = address sh)) (wholesaleShops dist)
                  else wholesaleShops dist)"
      by (rule deleteShop_arrays [OF h dst d])
  }
  {
    fix le f d ty
    show "fst (getShopsByDistributor le f d ty ?s')
            = fst (getShopsByDistributor le f d ty
                (?s'\<lparr>shops := filter (\<lambda>x. shop_id x \<noteq> i) (shops ?s')\<rparr>))"
      by (rule getShops_without_inactive [OF inact])
  }
  show "map_option (\<lambda>dist. map keyOfEntry (retailShops dist))
            (distributors (snd (deleteShop nofaults 30 twinDb)) 1)
          = Some [keyOfShop caseShop]"
    by code_simp
  show "fst (getShopsByDistributor binaryLe nofaults 1 None (snd (deleteShop nofaults 30 twinDb)))
          = Json 200 (Listing 1
              [LegacyObj \<lparr>view_id = 10, view_name = ''a'', view_ownerName = ''b'',
                 view_address = ''c'', view_type = Retailer, view_distributorId = 1,
                 isLegacy = True, view_isActive = True\<rparr>])"
    by code_simp
  show "map_option retailShopCount (distributors (snd (deleteShop nofaults 30 twinDb)) 1) = Some 1"
    by code_simp
qed


theorem deleteShop_soft_delete_witness:
  "Shop_findById 20 transferDb =
     Some \<lparr>shop_id = 20, name = ''A'', ownerName = ''B'', address = ''C'',
            shopType = Retailer, distributorId = 1, createdBy = None, isActive = True\<rparr>
   \<and> distinct (map shop_id (shops transferDb))
   \<and> fst (deleteShop nofaults 20 transferDb) = Json 200 EmptyData
   \<and> Shop_findById 20 (snd (deleteShop nofaults 20 transferDb)) =
       Some \<lparr>shop_id = 20, name = ''A'', ownerName = ''B'', address = ''C'',
            shopType = Retailer, distributorId = 1, createdBy = None, isActive = False\<rparr>
   \<and> (\<exists>dist'. distributors (snd (deleteShop nofaults 20 transferDb)) 1 = Some dist'
         \<and> retailShops dist' = [] \<and> wholesaleShops dist' = [])
   \<and> deleteShop nofaults 20 (snd (deleteShop nofaults 20 transferDb))
        = (Json 200 EmptyData, snd (deleteShop nofaults 20 transferDb))
   \<and> Shop_findById 21 wholesaleDb =
       Some \<lparr>shop_id = 21, name = ''W'', ownerName = ''O'', address = ''A'',
            shopType = WholeSeller, distributorId = 1, createdBy = None, isActive = True\<rparr>
   \<and> distinct (map shop_id (shops wholesaleDb))
   \<and> fst (deleteShop nofaults 21 wholesaleDb) = Json 200 EmptyData
   \<and> (\<exists>dist'. distributors (snd (deleteShop nofaults 21 wholesaleDb)) 1 = Some dist'
         \<and> retailShops dist' = [\<lparr>entry_id = 12, shopName = ''W'', entryOwnerName = ''O'',
                                   entryAddress = ''A''\<rparr>]
         \<and> wholesaleShops dist' = [])
   \<and> fst (getShopsByDistributor binaryLe nofaults 1 None (snd (deleteShop nofaults 21 wholesaleDb)))
       = fst (getShopsByDistributor binaryLe nofaults 1 None
           ((snd (deleteShop nofaults 21 wholesaleDb))
              \<lparr>shops := filter (\<lambda>x. shop_id x \<noteq> 21)
                          (shops (snd (deleteShop nofaults 21 wholesaleDb)))\<rparr>))"
proof -
  have h: "Shop_findById 20 transferDb =
     Some \<lparr>shop_id = 20, name = ''A'', ownerName = ''B'', address = ''C'',
            shopType = Retailer, distributorId = 1, createdBy = None, isActive = True\<rparr>"
    by code_simp
  have dst: "distinct (map shop_id (shops transferDb))"
    by code_simp
  have d: "distributors transferDb (distributorId
     \<lparr>shop_id = 20, name = ''A'', ownerName = ''B'', address = ''C'',
            shopType = Retailer, distributorId = 1, createdBy = None, isActive = True\<rparr>) =
       Some \<lparr>retailShops = [\<lparr>entry_id = 10, shopName = ''A'', entryOwnerName = ''B'',
                                   entryAddress = ''C''\<rparr>],
                 wholesaleShops = [], retailShopCount = 1, wholesaleShopCount = 0\<rparr>"
    by (simp add: transferDb_def)
  note th = deleteShop_soft_delete [OF h dst]
  from th have a: "fst (deleteShop nofaults 20 transferDb) = Json 200 EmptyData"
    by (rule conjunct1)
  from th have b: "Shop_findById 20 (snd (deleteShop nofaults 20 transferDb)) =
       Some (\<lparr>shop_id = 20, name = ''A'', ownerName = ''B'', address = ''C'',
            shopType = Retailer, distributorId = 1, createdBy = None, isActive = True\<rparr>
              \<lparr>isActive := False\<rparr>)"
    by (elim conjE)
  from th have c: "deleteShop nofaults 20 (snd (deleteShop nofaults 20 transferDb))
        = (Json 200 EmptyData, snd (deleteShop nofaults 20 transferDb))"
    by (elim conjE)
  from b have b': "Shop_findById 20 (snd (deleteShop nofaults 20 transferDb)) =
       Some \<lparr>shop_id = 20, name = ''A'', ownerName = ''B'', address = ''C'',
            shopType = Retailer, distributorId = 1, createdBy = None, isActive = False\<rparr>"
    by simp
  note e0 = th [THEN conjunct2, THEN conjunct2, THEN conjunct2, THEN conjunct2, THEN conjunct2,
      THEN conjunct2, THEN conjunct1, rule_format, OF d]
  from e0 have e: "\<exists>dist'. distributors (snd (deleteShop nofaults 20 transferDb)) 1 = Some dist'
         \<and> retailShops dist' = [] \<and> wholesaleShops dist' = []"
    by simp
  have h2: "Shop_findById 21 wholesaleDb =
       Some \<lparr>shop_id = 21, name = ''W'', ownerName = ''O'', address = ''A'',
            shopType = WholeSeller, distributorId = 1, createdBy = None, isActive = True\<rparr>"
    by code_simp
  have dst2: "distinct (map shop_id (shops wholesaleDb))"
    by code_simp
  note th2 = deleteShop_soft_delete [OF h2 dst2]
  from th2 have a2: "fst (deleteShop nofaults 21 wholesaleDb) = Json 200 EmptyData"
    by (rule conjunct1)
  have d2: "distributors wholesaleDb 1 =
       Some \<lparr>retailShops = [\<lparr>entry_id = 12, shopName = ''W'', entryOwnerName = ''O'',
                                   entryAddress = ''A''\<rparr>],
                 wholesaleShops = [\<lparr>entry_id = 11, shopName = ''W'', entryOwnerName = ''O'',
                                      entryAddress = ''A''\<rparr>],
                 retailShopCount = 1, wholesaleShopCount = 1\<rparr>"
    by (simp add: wholesaleDb_def)
  note i2 = th2 [THEN conjunct2, THEN conjunct2, THEN conjunct2, THEN conjunct2, THEN conjunct2,
      THEN conjunct2, THEN conjunct1, rule_format]
  from i2 d2 have e2: "\<exists>dist'. distributors (snd (deleteShop nofaults 21 wholesaleDb)) 1 = Some dist'
         \<and> retailShops dist' = [\<lparr>entry_id = 12, shopName = ''W'', entryOwnerName = ''O'',
                                   entryAddress = ''A''\<rparr>]
         \<and> wholesaleShops dist' = []"
    by simp
  from th2 have l2: "\<forall>le f d ty.
          fst (getShopsByDistributor le f d ty (snd (deleteShop nofaults 21 wholesaleDb)))
            = fst (getShopsByDistributor le f d ty
                ((snd (deleteShop nofaults 21 wholesaleDb))
                   \<lparr>shops := filter (\<lambda>x. shop_id x \<noteq> 21) (shops (snd (deleteShop nofaults 21 wholesaleDb)))\<rparr>))"
    by (elim conjE)
  from l2 have g2: "fst (getShopsByDistributor binaryLe nofaults 1 None (snd (deleteShop nofaults 21 wholesaleDb)))
       = fst (getShopsByDistributor binaryLe nofaults 1 None
           ((snd (deleteShop nofaults 21 wholesaleDb))
              \<lparr>shops := filter (\<lambda>x. shop_id x \<noteq> 21)
                          (shops (snd (deleteShop nofaults 21 wholesaleDb)))\<rparr>))"
    by (elim allE)
  from h dst a b' e c h2 dst2 a2 e2 g2 show ?thesis by (intro conjI)
qed

text \<open>
  The claim as stated fails: \<open>retailShops\<close> holds a second entry with the identity key
  of the shop, written in lower case. After deleteShop no Shop record is active, this
  entry is still in the array, the listing of the distributor shows it, and the stored
  count is 1 as before.
\<close>

theorem deleteShop_legacy_twin_counterexample:
  "Shop_findById 30 twinDb = Some caseShop
   \<and> distinct (map shop_id (shops twinDb))
   \<and> map_option retailShops (distributors twinDb 1)
       = Some [\<lparr>entry_id = 10, shopName = ''a'', entryOwnerName = ''b'', entryAddress = ''c''\<rparr>,
               \<lparr>entry_id = 31, shopName = ''A'', entryOwnerName = ''B'', entryAddress = ''C''\<rparr>]
   \<and> fst (deleteShop nofaults 30 twinDb) = Json 200 EmptyData
   \<and> filter isActive (shops (snd (deleteShop nofaults 30 twinDb))) = []
   \<and> map_option retailShops (distributors (snd (deleteShop nofaults 30 twinDb)) 1)
       = Some [\<lparr>entry_id = 10, shopName = ''a'', entryOwnerName = ''b'', entryAddress = ''c''\<rparr>]
   \<and> keyOfEntry \<lparr>entry_id = 10, shopName = ''a'', entryOwnerName = ''b'', entryAddress = ''c''\<rparr>
       = keyOfShop caseShop
   \<and> fst (getShopsByDistributor binaryLe nofaults 1 None (snd (deleteShop nofaults 30 twinDb)))
       = Json 200 (Listing 1
           [LegacyObj \<lparr>view_id = 10, view_name = ''a'', view_ownerName = ''b'',
              view_address = ''c'', view_type = Retailer, view_distributorId = 1,
              isLegacy = True, view_isActive = True\<rparr>])
   \<and> map_option retailShopCount (distributors twinDb 1) = Some 1
   \<and> map_option retailShopCount (distributors (snd (deleteShop nofaults 30 twinDb)) 1) = Some 1"
  by code_simp

section \<open>Rejected store calls\<close>






lemma fst_deleteShopLegacy_sync:
  "\<not> mirror_fails f \<Longrightarrow> fst (deleteShopLegacy f sh s) = Json 200 EmptyData"
  by (simp add: deleteShopLegacy_def Let_def split: option.splits)




lemma shops_syncBoth [simp]: "shops (syncBoth f a b s) = shops s"
  by (simp add: syncBoth_def Let_def)



lemma fst_updateShopLegacy_sync:
  "\<not> mirror_fails f \<Longrightarrow> fst (updateShopLegacy f b sh ot od nt nd s) = Json 200 (ShopData sh)"
  by (simp add: updateShopLegacy_def Let_def split: option.splits)



















section \<open>The counts after each operation\<close>

lemma countsReconciled_iff:
  "countsReconciled s d = (\<exists>dist. distributors s d = Some dist \<and> \<not> countsDiffer s d dist)"
  by (auto simp: countsReconciled_def countsDiffer_def totalRetailCount_eq totalWholesaleCount_eq
      split: option.splits)

lemma sync_establishes:
  assumes "distributors s d = Some dist"
  shows "countsReconciled (syncDistributorShopCounts nofaults d s) d"
  unfolding countsReconciled_iff
  using sync_reconciles [OF assms] reconciled_same [of "syncDistributorShopCounts nofaults d s" s d dist]
  by simp

lemma distributors_sync_other:
  "d' \<noteq> d \<Longrightarrow> distributors (syncDistributorShopCounts f d' s) d = distributors s d"
  by (simp add: syncDistributorShopCounts_def writeCounts_def distributors_updateDistributor
      split: option.splits)

lemma countsDiffer_cong:
  "shops s' = shops s \<Longrightarrow> countsDiffer s' d dist = countsDiffer s d dist"
  by (simp add: countsDiffer_def totalRetailCount_def totalWholesaleCount_def countDocuments_def
      shopsFromCollection_def)

lemma sync_preserves:
  assumes "countsReconciled s d"
  shows "countsReconciled (syncDistributorShopCounts nofaults d' s) d"
proof (cases "d' = d")
  case True
  from assms obtain dist where "distributors s d = Some dist"
    unfolding countsReconciled_iff by blast
  then show ?thesis unfolding True by (rule sync_establishes)
next
  case False
  from assms obtain dist where d: "distributors s d = Some dist" and c: "\<not> countsDiffer s d dist"
    unfolding countsReconciled_iff by blast
  have "distributors (syncDistributorShopCounts nofaults d' s) d = Some dist"
    using d by (simp add: distributors_sync_other [OF False])
  moreover have "\<not> countsDiffer (syncDistributorShopCounts nofaults d' s) d dist"
    using c countsDiffer_cong [of "syncDistributorShopCounts nofaults d' s" s d dist] by simp
  ultimately show ?thesis unfolding countsReconciled_iff by blast
qed

lemma sync_domain:
  "(distributors (syncDistributorShopCounts f d' s) d = None) = (distributors s d = None)"
  by (simp add: syncDistributorShopCounts_def writeCounts_def distributors_updateDistributor
      split: option.splits)

lemma syncBoth_establishes:
  assumes "distributors s od \<noteq> None" and "distributors s nd \<noteq> None"
  shows "countsReconciled (syncBoth nofaults od nd s) od"
    and "countsReconciled (syncBoth nofaults od nd s) nd"
proof -
  from assms obtain dist where o: "distributors s od = Some dist" by auto
  have a: "countsReconciled (syncDistributorShopCounts nofaults od s) od"
    by (rule sync_establishes [OF o])
  show "countsReconciled (syncBoth nofaults od nd s) od"
    using a by (simp add: syncBoth_def Let_def sync_preserves)
  show "countsReconciled (syncBoth nofaults od nd s) nd"
  proof (cases "nd = od")
    case True
    with a show ?thesis by (simp add: syncBoth_def Let_def)
  next
    case False
    from assms(2) have "distributors (syncDistributorShopCounts nofaults od s) nd \<noteq> None"
      by (simp add: sync_domain)
    then obtain dist' where
      "distributors (syncDistributorShopCounts nofaults od s) nd = Some dist'" by auto
    then have "countsReconciled
        (syncDistributorShopCounts nofaults nd (syncDistributorShopCounts nofaults od s)) nd"
      by (rule sync_establishes)
    with False show ?thesis by (simp add: syncBoth_def Let_def)
  qed
qed


lemma updateDistributor_domain:
  "(distributors (updateDistributor d g s) d' = None) = (distributors s d' = None)"
  by (simp add: distributors_updateDistributor split: option.splits)

lemma store_commands_domain:
  "(distributors (pushEntry d fld n ow a s) d' = None) = (distributors s d' = None)"
  "(distributors (pullEntries d fld n ow a s) d' = None) = (distributors s d' = None)"
  "(distributors (patchEntry d fld n ow a n' ow' a' s) d' = None) = (distributors s d' = None)"
  by (simp_all add: pushEntry_def pullEntries_def patchEntry_def updateDistributor_domain)

lemma updateDistributor_Some:
  "(\<exists>y. distributors (updateDistributor d g s) d' = Some y) = (\<exists>y. distributors s d' = Some y)"
  by (simp add: distributors_updateDistributor split: option.splits)

lemma store_commands_Some:
  "(\<exists>y. distributors (pushEntry d fld n ow a s) d' = Some y) = (\<exists>y. distributors s d' = Some y)"
  "(\<exists>y. distributors (pullEntries d fld n ow a s) d' = Some y) = (\<exists>y. distributors s d' = Some y)"
  "(\<exists>y. distributors (patchEntry d fld n ow a n' ow' a' s) d' = Some y)
     = (\<exists>y. distributors s d' = Some y)"
  by (simp_all add: pushEntry_def pullEntries_def patchEntry_def updateDistributor_Some)

lemma addShop_reconciles:
  assumes "fst (addShop nofaults b s) = Json 201 (ShopData sh)"
  shows "countsReconciled (snd (addShop nofaults b s)) (new_distributorId b)"
proof -
  from addShop_created [OF assms] obtain dist t where
    d: "distributors s (new_distributorId b) = Some dist"
    and e: "snd (addShop nofaults b s) =
         syncDistributorShopCounts nofaults (new_distributorId b)
           (if shopExists b dist then snd (Shop_create b t s)
            else pushEntry (new_distributorId b) (fieldOfType (new_type b))
                   (new_name b) (new_ownerName b) (new_address b) (snd (Shop_create b t s)))"
    by (elim exE conjE)
  let ?s2 = "if shopExists b dist then snd (Shop_create b t s)
            else pushEntry (new_distributorId b) (fieldOfType (new_type b))
                   (new_name b) (new_ownerName b) (new_address b) (snd (Shop_create b t s))"
  have "distributors ?s2 (new_distributorId b) \<noteq> None"
    using d by (simp add: store_commands_domain store_commands_Some)
  then obtain dist2 where "distributors ?s2 (new_distributorId b) = Some dist2" by auto
  then show ?thesis unfolding e by (rule sync_establishes)
qed

lemma deleteShop_reconciles:
  assumes "Shop_findById i s = Some sh" and "distributors s (distributorId sh) \<noteq> None"
  shows "countsReconciled (snd (deleteShop nofaults i s)) (distributorId sh)"
proof -
  let ?s1 = "s\<lparr>shops := updateFirst (\<lambda>x. shop_id x = i) (\<lambda>x. x\<lparr>isActive := False\<rparr>) (shops s)\<rparr>"
  let ?d = "distributorId sh"
  from assms(2) obtain dist where d: "distributors ?s1 ?d = Some dist" by auto
  let ?s2 = "if list_ex (sameDetails (name sh) (ownerName sh) (address sh))
                  (getField (fieldOfType (typeName (shopType sh))) dist)
             then pullEntries ?d (fieldOfType (typeName (shopType sh)))
                    (name sh) (ownerName sh) (address sh) ?s1
             else ?s1"
  have e: "snd (deleteShop nofaults i s) = syncDistributorShopCounts nofaults ?d ?s2"
    using assms(1) d by (simp add: deleteShop_def deleteShopLegacy_nofaults)
  have "distributors ?s2 ?d \<noteq> None"
    using d by (simp add: store_commands_domain store_commands_Some)
  then obtain dist2 where "distributors ?s2 ?d = Some dist2" by auto
  then show ?thesis unfolding e by (rule sync_establishes)
qed

lemma getShops_reconciles:
  assumes "fst (getShopsByDistributor le nofaults d ty s) = Json 200 (Listing n xs)"
  shows "countsReconciled (snd (getShopsByDistributor le nofaults d ty s)) d"
proof (cases "distributors s d")
  case None
  with assms show ?thesis
    by (simp add: getShopsByDistributor_def DistributorNotFound_def)
next
  case (Some dist)
  then show ?thesis
    by (simp add: getShops_found [OF Some] sync_establishes)
qed

lemma updateShopLegacy_syncs:
  assumes "distributors s od \<noteq> None"
  shows "\<exists>s2. snd (updateShopLegacy nofaults b sh ot od nt nd s) = syncBoth nofaults od nd s2
           \<and> (\<forall>d. (distributors s2 d = None) = (distributors s d = None))"
proof -
  from assms obtain dist where d: "distributors s od = Some dist" by auto
  let ?fld = "fieldOfType (typeName ot)"
  let ?pp = "pushEntry (if nd \<noteq> od then nd else od) (fieldOfType (typeName nt))
               (orElse (upd_name b) (name sh)) (orElse (upd_ownerName b) (ownerName sh))
               (orElse (upd_address b) (address sh))
               (pullEntries od ?fld (name sh) (ownerName sh) (address sh) s)"
  let ?pa = "patchEntry od ?fld (name sh) (ownerName sh) (address sh)
               (upd_name b) (upd_ownerName b) (upd_address b) s"
  have "snd (updateShopLegacy nofaults b sh ot od nt nd s) = syncBoth nofaults od nd ?pp
      \<or> snd (updateShopLegacy nofaults b sh ot od nt nd s) = syncBoth nofaults od nd ?pa
      \<or> snd (updateShopLegacy nofaults b sh ot od nt nd s) = syncBoth nofaults od nd s"
    using d by (simp add: updateShopLegacy_def Let_def nofaults_def)
  moreover have "\<forall>d. (distributors ?pp d = None) = (distributors s d = None)"
    by (simp add: store_commands_domain store_commands_Some)
  moreover have "\<forall>d. (distributors ?pa d = None) = (distributors s d = None)"
    by (simp add: store_commands_domain store_commands_Some)
  ultimately show ?thesis by blast
qed

lemma updateShop_reconciles:
  assumes ok: "fst (updateShop nofaults i ub s) = Json 200 (ShopData sh')"
    and h: "Shop_findById i s = Some sh"
    and od: "distributors s (distributorId sh) \<noteq> None"
  shows "countsReconciled (snd (updateShop nofaults i ub s)) (distributorId sh)"
    and "countsReconciled (snd (updateShop nofaults i ub s)) (distributorId sh')"
    and "distributorId sh' = newDistributorIdOf ub (distributorId sh)"
proof -
  let ?od = "distributorId sh"
  let ?nd = "newDistributorIdOf ub ?od"
  let ?nt = "orElse (upd_type ub) (typeName (shopType sh))"
  let ?v = "validateShop (orElse (upd_name ub) (name sh)) (orElse (upd_ownerName ub) (ownerName sh))
              (orElse (upd_address ub) (address sh)) ?nt"
  from ok h have v: "upd_errorsEmpty ub"
    by (simp add: updateShop_def split: if_splits)
  from ok h v have nd: "distributors s ?nd \<noteq> None"
    using od by (cases "?nd = ?od")
      (auto simp: updateShop_def Let_def DistributorNotFound_def split: if_splits)
  from ok h v nd obtain t where t: "?v = Some t"
    by (cases ?v) (auto simp: updateShop_def Let_def split: if_splits)
  let ?sh1 = "shopUpdate ub t ?nd sh"
  let ?s1 = "s\<lparr>shops := updateFirst (\<lambda>x. shop_id x = i) (shopUpdate ub t ?nd) (shops s)\<rparr>"
  have e: "updateShop nofaults i ub s = updateShopLegacy nofaults ub ?sh1 (shopType sh) ?od t ?nd ?s1"
    using h v nd t by (auto simp: updateShop_def Let_def)
  have od1: "distributors ?s1 ?od \<noteq> None" using od by simp
  have "fst (updateShopLegacy nofaults ub ?sh1 (shopType sh) ?od t ?nd ?s1) = Json 200 (ShopData ?sh1)"
    by (rule fst_updateShopLegacy_sync) (simp add: nofaults_def)
  with ok e have sh': "sh' = ?sh1" by simp
  show id: "distributorId sh' = ?nd"
    unfolding sh' by (simp add: shopUpdate_def)
  from updateShopLegacy_syncs [OF od1] obtain s2 where
    s2: "snd (updateShopLegacy nofaults ub ?sh1 (shopType sh) ?od t ?nd ?s1)
           = syncBoth nofaults ?od ?nd s2"
    and dom: "\<forall>d. (distributors s2 d = None) = (distributors ?s1 d = None)"
    by blast
  have a: "distributors s2 ?od \<noteq> None" using dom od by simp
  have b: "distributors s2 ?nd \<noteq> None" using dom nd by simp
  show "countsReconciled (snd (updateShop nofaults i ub s)) ?od"
    unfolding e s2 by (rule syncBoth_establishes(1) [OF a b])
  show "countsReconciled (snd (updateShop nofaults i ub s)) (distributorId sh')"
    unfolding e s2 id by (rule syncBoth_establishes(2) [OF a b])
qed


lemma distinct_count:
  assumes "distinct (map keyOfShop xs @ map keyOfEntry (unmatchedLegacy xs es))"
  shows "length (remdups (map keyOfShop xs @ map keyOfEntry es))
           = length xs + length (unmatchedLegacy xs es)"
proof -
  have "set (map keyOfShop xs @ map keyOfEntry es)
          = set (map keyOfShop xs @ map keyOfEntry (unmatchedLegacy xs es))"
    by (auto simp: unmatchedLegacy_def)
  then have "length (remdups (map keyOfShop xs @ map keyOfEntry es))
          = card (set (map keyOfShop xs @ map keyOfEntry (unmatchedLegacy xs es)))"
    by (simp only: length_remdups_card_conv)
  also have "\<dots> = length (map keyOfShop xs @ map keyOfEntry (unmatchedLegacy xs es))"
    using assms by (rule distinct_card)
  finally show ?thesis by simp
qed

lemma addShopLegacy_success:
  assumes "\<not> sync_fails f" and "fst (addShopLegacy f b dist sh s) = Json 201 (ShopData sh')"
  shows "addShopLegacy f b dist sh s = addShopLegacy nofaults b dist sh s"
  using assms
  by (simp add: addShopLegacy_def syncDistributorShopCounts_def nofaults_def split: if_splits)

lemma addShop_success:
  assumes "\<not> sync_fails f" and "fst (addShop f b s) = Json 201 (ShopData sh)"
  shows "addShop f b s = addShop nofaults b s"
  using assms
  by (auto simp: addShop_def DistributorNotFound_def Conflict_def
      split: if_splits option.splits prod.splits intro: addShopLegacy_success)

lemma deleteShopLegacy_success:
  assumes "\<not> sync_fails f" and "fst (deleteShopLegacy f sh s) = Json 200 EmptyData"
  shows "deleteShopLegacy f sh s = deleteShopLegacy nofaults sh s"
  using assms
  by (auto simp: deleteShopLegacy_def Let_def syncDistributorShopCounts_def nofaults_def
      split: if_splits option.splits)

lemma deleteShop_success:
  assumes "\<not> sync_fails f" and "fst (deleteShop f i s) = Json 200 EmptyData"
  shows "deleteShop f i s = deleteShop nofaults i s"
  using assms
  by (auto simp: deleteShop_def ShopNotFound_def split: option.splits
      intro: deleteShopLegacy_success)

lemma updateShopLegacy_success:
  assumes "\<not> sync_fails f"
    and "fst (updateShopLegacy f b sh ot od nt nd s) = Json 200 (ShopData sh')"
  shows "updateShopLegacy f b sh ot od nt nd s = updateShopLegacy nofaults b sh ot od nt nd s"
  using assms
  by (auto simp: updateShopLegacy_def Let_def syncBoth_def syncDistributorShopCounts_def
      nofaults_def split: if_splits option.splits)

lemma updateShop_success:
  assumes "\<not> sync_fails f" and "fst (updateShop f i ub s) = Json 200 (ShopData sh')"
  shows "updateShop f i ub s = updateShop nofaults i ub s"
  using assms
  by (auto simp: updateShop_def Let_def ShopNotFound_def DistributorNotFound_def
      split: if_splits option.splits intro: updateShopLegacy_success)

lemma getShops_success:
  assumes "\<not> sync_fails f"
  shows "getShopsByDistributor le f d ty s = getShopsByDistributor le nofaults d ty s"
  using assms
  by (simp add: getShopsByDistributor_def Let_def syncDistributorShopCounts_def nofaults_def
      split: option.splits)

text \<open>
  Claim C1, as amended. After addShop, updateShop, deleteShop or getShopsByDistributor
  has answered with success, in a run in which the store calls of the reconciler do not
  reject, the counts of the distributor documents concerned are reconciled: for addShop
  and the listing the distributor of the request; for deleteShop the distributor of the
  shop, when there is such a document; for updateShop of a shop whose original
  distributor document exists, the original and the new distributor. A reconciled count
  is the number of active Shop records of the type plus the number of legacy entries of
  the matching array whose key is the key of none of them. It is the number of distinct
  identity keys of the merged records whenever the records it counts have distinct keys.
\<close>

theorem operations_restore_counts:
  "(\<not> sync_fails f \<and> fst (addShop f b s) = Json 201 (ShopData sh)
      \<longrightarrow> countsReconciled (snd (addShop f b s)) (new_distributorId b))
   \<and> (\<not> sync_fails f \<and> fst (updateShop f i ub s) = Json 200 (ShopData sh')
        \<and> Shop_findById i s = Some sh0 \<and> distributors s (distributorId sh0) \<noteq> None
      \<longrightarrow> countsReconciled (snd (updateShop f i ub s)) (distributorId sh0)
          \<and> countsReconciled (snd (updateShop f i ub s)) (distributorId sh'))
   \<and> (Shop_findById i s = Some sh0 \<and> distributors s (distributorId sh0) \<noteq> None
      \<longrightarrow> fst (deleteShop nofaults i s) = Json 200 EmptyData)
   \<and> (\<not> sync_fails f \<and> fst (deleteShop f i s) = Json 200 EmptyData
        \<and> Shop_findById i s = Some sh0 \<and> distributors s (distributorId sh0) \<noteq> None
      \<longrightarrow> countsReconciled (snd (deleteShop f i s)) (distributorId sh0))
   \<and> (\<not> sync_fails f \<and> fst (getShopsByDistributor le f d ty s) = Json 200 (Listing n xs)
      \<longrightarrow> countsReconciled (snd (getShopsByDistributor le f d ty s)) d)
   \<and> (\<forall>dist. distributors s d = Some dist \<longrightarrow> countsReconciled s d \<longrightarrow>
         (distinct (map keyOfShop (activeOfType s d Retailer)
              @ map keyOfEntry (unmatchedLegacy (activeOfType s d Retailer) (retailShops dist)))
            \<longrightarrow> retailShopCount dist = mergedDistinctCount s d Retailer (retailShops dist))
       \<and> (distinct (map keyOfShop (activeOfType s d WholeSeller)
              @ map keyOfEntry (unmatchedLegacy (activeOfType s d WholeSeller) (wholesaleShops dist)))
            \<longrightarrow> wholesaleShopCount dist
                  = mergedDistinctCount s d WholeSeller (wholesaleShops dist)))"
proof (intro conjI allI impI)
  assume a: "\<not> sync_fails f \<and> fst (addShop f b s) = Json 201 (ShopData sh)"
  then have e: "addShop f b s = addShop nofaults b s"
    by (intro addShop_success [of f b s sh]) simp_all
  from a e have "fst (addShop nofaults b s) = Json 201 (ShopData sh)" by simp
  then show "countsReconciled (snd (addShop f b s)) (new_distributorId b)"
    unfolding e by (rule addShop_reconciles)
next
  assume a: "\<not> sync_fails f \<and> fst (updateShop f i ub s) = Json 200 (ShopData sh')
        \<and> Shop_findById i s = Some sh0 \<and> distributors s (distributorId sh0) \<noteq> None"
  then have e: "updateShop f i ub s = updateShop nofaults i ub s"
    by (intro updateShop_success [of f i ub s sh']) simp_all
  from a e have ok: "fst (updateShop nofaults i ub s) = Json 200 (ShopData sh')" by simp
  from a show "countsReconciled (snd (updateShop f i ub s)) (distributorId sh0)"
    unfolding e by (intro updateShop_reconciles(1) [OF ok]) simp_all
next
  assume a: "\<not> sync_fails f \<and> fst (updateShop f i ub s) = Json 200 (ShopData sh')
        \<and> Shop_findById i s = Some sh0 \<and> distributors s (distributorId sh0) \<noteq> None"
  then have e: "updateShop f i ub s = updateShop nofaults i ub s"
    by (intro updateShop_success [of f i ub s sh']) simp_all
  from a e have ok: "fst (updateShop nofaults i ub s) = Json 200 (ShopData sh')" by simp
  from a show "countsReconciled (snd (updateShop f i ub s)) (distributorId sh')"
    unfolding e by (intro updateShop_reconciles(2) [OF ok, of sh0]) simp_all
next
  assume a: "Shop_findById i s = Some sh0 \<and> distributors s (distributorId sh0) \<noteq> None"
  then have "fst (deleteShop nofaults i s) = fst (deleteShopLegacy nofaults sh0
      (s\<lparr>shops := updateFirst (\<lambda>x. shop_id x = i) (\<lambda>x. x\<lparr>isActive := False\<rparr>) (shops s)\<rparr>))"
    by (simp add: deleteShop_def)
  then show "fst (deleteShop nofaults i s) = Json 200 EmptyData"
    by (simp add: fst_deleteShopLegacy_sync nofaults_def)
next
  assume a: "\<not> sync_fails f \<and> fst (deleteShop f i s) = Json 200 EmptyData
        \<and> Shop_findById i s = Some sh0 \<and> distributors s (distributorId sh0) \<noteq> None"
  then have e: "deleteShop f i s = deleteShop nofaults i s"
    by (intro deleteShop_success) simp_all
  from a show "countsReconciled (snd (deleteShop f i s)) (distributorId sh0)"
    unfolding e by (intro deleteShop_reconciles) simp_all
next
  assume a: "\<not> sync_fails f \<and> fst (getShopsByDistributor le f d ty s) = Json 200 (Listing n xs)"
  then have e: "getShopsByDistributor le f d ty s = getShopsByDistributor le nofaults d ty s"
    by (intro getShops_success) simp
  from a e have "fst (getShopsByDistributor le nofaults d ty s) = Json 200 (Listing n xs)"
    by simp
  then show "countsReconciled (snd (getShopsByDistributor le f d ty s)) d"
    unfolding e by (rule getShops_reconciles)
next
  fix dist
  assume d: "distributors s d = Some dist" and c: "countsReconciled s d"
    and dst: "distinct (map keyOfShop (activeOfType s d Retailer)
              @ map keyOfEntry (unmatchedLegacy (activeOfType s d Retailer) (retailShops dist)))"
  from c d have "retailShopCount dist = length (activeOfType s d Retailer)
              + length (unmatchedLegacy (activeOfType s d Retailer) (retailShops dist))"
    by (simp add: countsReconciled_def)
  with distinct_count [OF dst]
  show "retailShopCount dist = mergedDistinctCount s d Retailer (retailShops dist)"
    by (simp add: mergedDistinctCount_def)
next
  fix dist
  assume d: "distributors s d = Some dist" and c: "countsReconciled s d"
    and dst: "distinct (map keyOfShop (activeOfType s d WholeSeller)
              @ map keyOfEntry (unmatchedLegacy (activeOfType s d WholeSeller) (wholesaleShops dist)))"
  from c d have "wholesaleShopCount dist = length (activeOfType s d WholeSeller)
              + length (unmatchedLegacy (activeOfType s d WholeSeller) (wholesaleShops dist))"
    by (simp add: countsReconciled_def)
  with distinct_count [OF dst]
  show "wholesaleShopCount dist = mergedDistinctCount s d WholeSeller (wholesaleShops dist)"
    by (simp add: mergedDistinctCount_def)
qed


theorem operations_restore_counts_witness:
  "countsReconciled (snd (addShop nofaults caseBody emptyDb)) 1
   \<and> countsReconciled (snd (addShop \<lparr>mirror_fails = True, sync_fails = False\<rparr> wholesaleBody filterDb)) 1
   \<and> countsReconciled (snd (updateShop nofaults 20 transferBody transferDb)) 1
   \<and> countsReconciled (snd (updateShop nofaults 20 transferBody transferDb)) 2
   \<and> countsReconciled (snd (deleteShop nofaults 20 transferDb)) 1
   \<and> countsReconciled (snd (getShopsByDistributor binaryLe nofaults 1 None filterDb)) 1
   \<and> retailShopCount (dedupDist\<lparr>retailShopCount := 1\<rparr>)
        = mergedDistinctCount (syncDistributorShopCounts nofaults 1 dedupDb) 1 Retailer
            (retailShops dedupDist)
   \<and> wholesaleShopCount (dedupDist\<lparr>retailShopCount := 1\<rparr>)
        = mergedDistinctCount (syncDistributorShopCounts nofaults 1 dedupDb) 1 WholeSeller
            (wholesaleShops dedupDist)"
proof -
  have nf: "\<not> sync_fails nofaults"
    by (simp add: nofaults_def)
  have a: "fst (addShop nofaults caseBody emptyDb) = Json 201 (ShopData caseShop)"
    by code_simp
  have m: "\<not> sync_fails \<lparr>mirror_fails = True, sync_fails = False\<rparr>
     \<and> fst (addShop \<lparr>mirror_fails = True, sync_fails = False\<rparr> wholesaleBody filterDb) =
       Json 201 (ShopData \<lparr>shop_id = 30, name = ''W'', ownerName = ''O'', address = ''A'',
         shopType = WholeSeller, distributorId = 1, createdBy = Some 7, isActive = True\<rparr>)"
    by code_simp
  from m operations_restore_counts [where f = "\<lparr>mirror_fails = True, sync_fails = False\<rparr>" and b = wholesaleBody and s = filterDb
      and sh = "\<lparr>shop_id = 30, name = ''W'', ownerName = ''O'', address = ''A'',
         shopType = WholeSeller, distributorId = 1, createdBy = Some 7, isActive = True\<rparr>"]
  have r0: "countsReconciled (snd (addShop \<lparr>mirror_fails = True, sync_fails = False\<rparr> wholesaleBody filterDb))
      (new_distributorId wholesaleBody)"
    by blast
  from r0 have r0p: "countsReconciled (snd (addShop \<lparr>mirror_fails = True, sync_fails = False\<rparr> wholesaleBody filterDb)) 1"
    by (simp add: wholesaleBody_def)
  have u: "fst (updateShop nofaults 20 transferBody transferDb) =
       Json 200 (ShopData \<lparr>shop_id = 20, name = ''A2'', ownerName = ''B'', address = ''C'',
            shopType = Retailer, distributorId = 2, createdBy = None, isActive = True\<rparr>)
     \<and> Shop_findById 20 transferDb =
       Some \<lparr>shop_id = 20, name = ''A'', ownerName = ''B'', address = ''C'',
            shopType = Retailer, distributorId = 1, createdBy = None, isActive = True\<rparr>
     \<and> distributors transferDb
          (distributorId \<lparr>shop_id = 20, name = ''A'', ownerName = ''B'', address = ''C'',
            shopType = Retailer, distributorId = 1, createdBy = None, isActive = True\<rparr>) \<noteq> None"
    by code_simp
  have dl: "Shop_findById 20 transferDb =
       Some \<lparr>shop_id = 20, name = ''A'', ownerName = ''B'', address = ''C'',
            shopType = Retailer, distributorId = 1, createdBy = None, isActive = True\<rparr>
     \<and> distributors transferDb
          (distributorId \<lparr>shop_id = 20, name = ''A'', ownerName = ''B'', address = ''C'',
            shopType = Retailer, distributorId = 1, createdBy = None, isActive = True\<rparr>) \<noteq> None"
    using u by simp
  have dl0: "fst (deleteShop nofaults 20 transferDb) = Json 200 EmptyData"
    by code_simp
  have g: "fst (getShopsByDistributor binaryLe nofaults 1 None filterDb) =
      Json 200 (Listing 2 [ShopDoc filterShop,
        LegacyObj \<lparr>view_id = 11, view_name = ''W'', view_ownerName = ''O'',
          view_address = ''A'', view_type = WholeSeller,
          view_distributorId = 1, isLegacy = True, view_isActive = True\<rparr>])"
    by code_simp
  have sd: "distributors (syncDistributorShopCounts nofaults 1 dedupDb) 1
      = Some (dedupDist\<lparr>retailShopCount := 1\<rparr>)"
    by code_simp
  have sc: "countsReconciled (syncDistributorShopCounts nofaults 1 dedupDb) 1"
    by code_simp
  have dk: "distinct (map keyOfShop (activeOfType (syncDistributorShopCounts nofaults 1 dedupDb) 1 Retailer)
              @ map keyOfEntry
                  (unmatchedLegacy (activeOfType (syncDistributorShopCounts nofaults 1 dedupDb) 1 Retailer)
                     (retailShops (dedupDist\<lparr>retailShopCount := 1\<rparr>))))"
    by code_simp
  from nf a operations_restore_counts [where f = nofaults and b = caseBody and s = emptyDb and sh = caseShop]
  have r1: "countsReconciled (snd (addShop nofaults caseBody emptyDb)) (new_distributorId caseBody)"
    by blast
  from nf u operations_restore_counts [where f = nofaults and i = 20 and s = transferDb and ub = transferBody
      and sh' = "\<lparr>shop_id = 20, name = ''A2'', ownerName = ''B'', address = ''C'',
            shopType = Retailer, distributorId = 2, createdBy = None, isActive = True\<rparr>"
      and ?sh0.0 = "\<lparr>shop_id = 20, name = ''A'', ownerName = ''B'', address = ''C'',
            shopType = Retailer, distributorId = 1, createdBy = None, isActive = True\<rparr>"]
  have r2: "countsReconciled (snd (updateShop nofaults 20 transferBody transferDb)) 1
     \<and> countsReconciled (snd (updateShop nofaults 20 transferBody transferDb)) 2"
    by simp
  from nf dl dl0 operations_restore_counts [where f = nofaults and i = 20 and s = transferDb
      and ?sh0.0 = "\<lparr>shop_id = 20, name = ''A'', ownerName = ''B'', address = ''C'',
            shopType = Retailer, distributorId = 1, createdBy = None, isActive = True\<rparr>"]
  have r3: "countsReconciled (snd (deleteShop nofaults 20 transferDb)) 1"
    by simp
  from nf g operations_restore_counts [where f = nofaults and le = binaryLe and d = 1 and ty = None and s = filterDb]
  have r4: "countsReconciled (snd (getShopsByDistributor binaryLe nofaults 1 None filterDb)) 1"
    by blast
  from sd sc dk operations_restore_counts
    [where f = nofaults and s = "syncDistributorShopCounts nofaults 1 dedupDb" and d = 1]
  have r5: "retailShopCount (dedupDist\<lparr>retailShopCount := 1\<rparr>)
        = mergedDistinctCount (syncDistributorShopCounts nofaults 1 dedupDb) 1 Retailer
            (retailShops (dedupDist\<lparr>retailShopCount := 1\<rparr>))"
    by blast
  have dw: "distinct (map keyOfShop (activeOfType (syncDistributorShopCounts nofaults 1 dedupDb) 1 WholeSeller)
              @ map keyOfEntry
                  (unmatchedLegacy (activeOfType (syncDistributorShopCounts nofaults 1 dedupDb) 1 WholeSeller)
                     (wholesaleShops (dedupDist\<lparr>retailShopCount := 1\<rparr>))))"
    by code_simp
  from sd sc dw operations_restore_counts
    [where f = nofaults and s = "syncDistributorShopCounts nofaults 1 dedupDb" and d = 1]
  have r6: "wholesaleShopCount (dedupDist\<lparr>retailShopCount := 1\<rparr>)
        = mergedDistinctCount (syncDistributorShopCounts nofaults 1 dedupDb) 1 WholeSeller
            (wholesaleShops (dedupDist\<lparr>retailShopCount := 1\<rparr>))"
    by blast
  from r6 have r6p: "wholesaleShopCount (dedupDist\<lparr>retailShopCount := 1\<rparr>)
        = mergedDistinctCount (syncDistributorShopCounts nofaults 1 dedupDb) 1 WholeSeller
            (wholesaleShops dedupDist)"
    by simp
  from r1 have r1p: "countsReconciled (snd (addShop nofaults caseBody emptyDb)) 1"
    by (simp add: caseBody_def)
  from r5 have r5p: "retailShopCount (dedupDist\<lparr>retailShopCount := 1\<rparr>)
        = mergedDistinctCount (syncDistributorShopCounts nofaults 1 dedupDb) 1 Retailer
            (retailShops dedupDist)"
    by simp
  from r1p r0p r2 r3 r4 r5p r6p show ?thesis by (intro conjI) (elim conjE, assumption)+
qed


text \<open>
  The claim as stated fails. Two requests whose names differ in case only are both
  accepted, the distributor then has two active Retailer shops with one identity key, and
  the stored count is 2 where the merged records have 1 distinct key. When the store
  calls of the reconciler reject, addShop still answers 201, and the stored count stays 0
  beside one active shop. And updateShop of a shop whose original distributor document
  is missing answers 200 with the shop moved to distributor 2, whose stored count stays
  0.
\<close>

theorem counts_not_distinct_keys_counterexample:
  "fst (addShop nofaults caseBody emptyDb) = Json 201 (ShopData caseShop)
   \<and> fst (addShop nofaults lowerBody (snd (addShop nofaults caseBody emptyDb))) =
       Json 201 (ShopData \<lparr>shop_id = 32, name = ''a'', ownerName = ''b'', address = ''c'',
         shopType = Retailer, distributorId = 1, createdBy = Some 7, isActive = True\<rparr>)
   \<and> distributors twoAdds 1 =
       Some \<lparr>retailShops =
               [\<lparr>entry_id = 31, shopName = ''A'', entryOwnerName = ''B'', entryAddress = ''C''\<rparr>,
                \<lparr>entry_id = 33, shopName = ''a'', entryOwnerName = ''b'', entryAddress = ''c''\<rparr>],
             wholesaleShops = [], retailShopCount = 2, wholesaleShopCount = 0\<rparr>
   \<and> mergedDistinctCount twoAdds 1 Retailer
         [\<lparr>entry_id = 31, shopName = ''A'', entryOwnerName = ''B'', entryAddress = ''C''\<rparr>,
          \<lparr>entry_id = 33, shopName = ''a'', entryOwnerName = ''b'', entryAddress = ''c''\<rparr>] = 1
   \<and> fst (addShop \<lparr>mirror_fails = False, sync_fails = True\<rparr> caseBody emptyDb)
       = Json 201 (ShopData caseShop)
   \<and> distributors (snd (addShop \<lparr>mirror_fails = False, sync_fails = True\<rparr> caseBody emptyDb)) 1 =
       Some \<lparr>retailShops =
               [\<lparr>entry_id = 31, shopName = ''A'', entryOwnerName = ''B'', entryAddress = ''C''\<rparr>],
             wholesaleShops = [], retailShopCount = 0, wholesaleShopCount = 0\<rparr>
   \<and> mergedDistinctCount (snd (addShop \<lparr>mirror_fails = False, sync_fails = True\<rparr> caseBody emptyDb))
         1 Retailer
         [\<lparr>entry_id = 31, shopName = ''A'', entryOwnerName = ''B'', entryAddress = ''C''\<rparr>] = 1
   \<and> fst (updateShop nofaults 20 transferBody orphanDb) =
       Json 200 (ShopData \<lparr>shop_id = 20, name = ''A2'', ownerName = ''B'', address = ''C'',
         shopType = Retailer, distributorId = 2, createdBy = None, isActive = True\<rparr>)
   \<and> distributors (snd (updateShop nofaults 20 transferBody orphanDb)) 2 =
       Some \<lparr>retailShops = [], wholesaleShops = [], retailShopCount = 0,
              wholesaleShopCount = 0\<rparr>
   \<and> mergedDistinctCount (snd (updateShop nofaults 20 transferBody orphanDb)) 2 Retailer [] = 1"
  by code_simp

end
